theory Spec2Isabelle
  imports Complex_Main "HOL-Library.Char_ord" "HOL-Library.List_Lexorder"
begin

section \<open>Paths and strings\<close>

text \<open>
  Python strings are modelled as \<open>string\<close>. The helpers below are the POSIX versions of
  \<^verbatim>\<open>os.path.basename\<close>, \<^verbatim>\<open>os.path.dirname\<close>, \<^verbatim>\<open>os.path.join\<close> (posixpath.py) and of
  \<^verbatim>\<open>str.join\<close>.
\<close>

definition basename :: "string \<Rightarrow> string" where
  \<comment> \<open>\<^verbatim>\<open>i = p.rfind('/') + 1; return p[i:]\<close>\<close>
  "basename p = rev (takeWhile (\<lambda>c. c \<noteq> CHR ''/'') (rev p))"

definition dirname :: "string \<Rightarrow> string" where
  \<comment> \<open>\<^verbatim>\<open>head = p[:p.rfind('/') + 1]; if head and head != '/' * len(head): head = head.rstrip('/')\<close>\<close>
  "dirname p =
     (let head = rev (dropWhile (\<lambda>c. c \<noteq> CHR ''/'') (rev p))
      in if head \<noteq> [] \<and> (\<exists>c \<in> set head. c \<noteq> CHR ''/'')
         then rev (dropWhile (\<lambda>c. c = CHR ''/'') (rev head))
         else head)"

definition path_join :: "string \<Rightarrow> string \<Rightarrow> string" where
  \<comment> \<open>\<^verbatim>\<open>os.path.join(a, b)\<close> with two arguments\<close>
  "path_join a b =
     (if b \<noteq> [] \<and> hd b = CHR ''/'' then b
      else if a = [] \<or> last a = CHR ''/'' then a @ b
      else a @ ''/'' @ b)"

fun py_join :: "string \<Rightarrow> string list \<Rightarrow> string" where
  "py_join sep [] = []"
| "py_join sep [x] = x"
| "py_join sep (x # y # ys) = x @ sep @ py_join sep (y # ys)"

section \<open>Exceptions, the world and the environment\<close>

text \<open>
  An exception is a value: its class (only the classes the code dispatches on are kept
  apart; every other subclass of \<^verbatim>\<open>Exception\<close> is \<open>OtherError\<close>) and its message \<^verbatim>\<open>str(e)\<close>.
\<close>

datatype exn_class =
  PlainException | ValueError | GitCommandError | PermissionError
  | RequestException | JSONDecodeError | OtherError

datatype error = Err exn_class string

fun err_class :: "error \<Rightarrow> exn_class" where
  "err_class (Err c m) = c"

fun str_of :: "error \<Rightarrow> string" where
  "str_of (Err c m) = m"

datatype level = INFO | WARNING | ERROR

datatype git_cmd =
  Clone string | AddAll | Add string | Commit string | Push | PushForce | ResetHard string
  | RemotePush | RemotePull

text \<open>
  \<open>Push\<close>, \<open>PushForce\<close> and the other commands up to \<open>ResetHard\<close> are calls of the git
  command line (\<^verbatim>\<open>self.repo.git.push()\<close>), which raise \<^verbatim>\<open>GitCommandError\<close> whenever git
  exits with an error. \<open>RemotePush\<close> and \<open>RemotePull\<close> are the methods
  \<^verbatim>\<open>self.repo.remotes.origin.push()\<close> and \<^verbatim>\<open>.pull()\<close>: a push that the remote rejects
  does not raise, it returns a list of results that carry an error flag.
\<close>

datatype fs_cmd =
  Makedirs string | Rmtree string | Rsync string string | Copytree string string
  | Copy2 string string | WriteFile string string | AppendFile string string

datatype progress_value = Ratio nat nat | Percent nat

text \<open>
  The values of \<^verbatim>\<open>json.loads\<close>. A number is an \<^verbatim>\<open>int\<close> or a \<^verbatim>\<open>float\<close>; a float is kept as the
  rational number it denotes, or as one of the two infinities (the literals \<^verbatim>\<open>Infinity\<close> and
  \<^verbatim>\<open>-Infinity\<close>, or a literal too large for a double such as \<^verbatim>\<open>1e999\<close>). Python compares
  integers and floats by their exact value, which is the order below. The float \<^verbatim>\<open>NaN\<close>
  (which \<^verbatim>\<open>json.loads\<close> accepts as a literal) has no value here: every comparison with it
  is false, and what \<^verbatim>\<open>list.sort\<close> leaves then depends on the sorting algorithm.
\<close>

datatype pyfloat = NegInf | Finite rat | PosInf

instantiation pyfloat :: linorder
begin

fun less_eq_pyfloat :: "pyfloat \<Rightarrow> pyfloat \<Rightarrow> bool" where
  "less_eq_pyfloat NegInf y = True"
| "less_eq_pyfloat (Finite a) NegInf = False"
| "less_eq_pyfloat (Finite a) (Finite b) = (a \<le> b)"
| "less_eq_pyfloat (Finite a) PosInf = True"
| "less_eq_pyfloat PosInf NegInf = False"
| "less_eq_pyfloat PosInf (Finite b) = False"
| "less_eq_pyfloat PosInf PosInf = True"

definition less_pyfloat :: "pyfloat \<Rightarrow> pyfloat \<Rightarrow> bool" where
  "less_pyfloat x y = (x \<le> y \<and> \<not> y \<le> x)"

instance
proof
  fix x y z :: pyfloat
  show "(x < y) = (x \<le> y \<and> \<not> y \<le> x)" by (simp add: less_pyfloat_def)
  show "x \<le> x" by (cases x) auto
  show "x \<le> y \<Longrightarrow> y \<le> z \<Longrightarrow> x \<le> z" by (cases x; cases y; cases z) auto
  show "x \<le> y \<Longrightarrow> y \<le> x \<Longrightarrow> x = y" by (cases x; cases y) auto
  show "x \<le> y \<or> y \<le> x" by (cases x; cases y) auto
qed

end

datatype json =
  JNull | JBool bool | JNum int | JFloat pyfloat | JStr string | JArr "json list"
  | JObj "(string \<times> json) list"

record commit =
  hexsha :: string
  committed_date :: int

text \<open>
  The part of the machine the engine reads and writes: the directories known to exist,
  the text files it reads or writes (path and content), the commits of the checked-out
  branch (newest first, the root commit last; the history is linear), the git commands
  and the filesystem changes attempted so far, the log, the progress reports and the
  attribute \<^verbatim>\<open>self.incremental\<close>.
\<close>

record world =
  paths :: "string list"
  files :: "(string \<times> string) list"
  history :: "commit list"
  git_log :: "git_cmd list"
  fs_log :: "fs_cmd list"
  logged :: "(level \<times> string) list"
  progress :: "(progress_value \<times> string) list"
  self_incremental :: bool

text \<open>
  What the outside answers. \<open>git_outcome env n c\<close> is the fate of command \<open>c\<close> when it is
  the \<open>n\<close>-th git command attempted (\<open>None\<close>: it succeeds; \<open>Some e\<close>: it raises \<open>e\<close>);
  \<open>fs_outcome\<close> likewise for a change of the filesystem and \<open>read_outcome\<close> for opening
  a file for reading. \<open>json_loads\<close> and \<open>json_dumps\<close> are the library's parser and
  printer; \<open>json_loads env s\<close> is \<open>Inl e\<close> when \<^verbatim>\<open>json.loads(s)\<close> raises \<open>e\<close>, which is a
  \<^verbatim>\<open>json.JSONDecodeError\<close> for a text that is not JSON and another exception otherwise
  (\<^verbatim>\<open>ValueError\<close> for an integer of more than 4300 digits, \<^verbatim>\<open>RecursionError\<close> for a text
  nested too deeply).
  \<open>commit_made env n\<close> is the commit that the \<open>n\<close>-th git command creates when it is a
  successful \<^verbatim>\<open>git commit\<close>; \<open>pulled_files\<close>, \<open>pulled_history\<close> and \<open>reset_files\<close> say what a
  pull and a hard reset leave in the working tree and on the branch. A \<^verbatim>\<open>datetime\<close> of the
  code is a local time without a zone; it is kept as the number of microseconds between
  \<^verbatim>\<open>datetime(1970, 1, 1)\<close> and it. \<open>now_us\<close> is \<^verbatim>\<open>datetime.now()\<close>, \<open>local_time t\<close> is
  \<^verbatim>\<open>datetime.fromtimestamp(t)\<close> and \<open>show_date t\<close> the text of that date, for \<open>t\<close> in seconds
  since the epoch. \<open>head_ref\<close> is the branch that \<open>HEAD\<close> names, and \<open>repo_size env n\<close> what
  \<^verbatim>\<open>_get_repo_size\<close> finds after \<open>n\<close> git commands. \<open>push_rejected env n\<close> says whether the remote rejects the ref when
  the \<open>n\<close>-th git command is a \<open>RemotePush\<close> that does not raise. \<open>now_stamp\<close> is
  \<^verbatim>\<open>datetime.now().strftime("%Y-%m-%d %H:%M:%S")\<close>; \<open>getsize p\<close> is \<^verbatim>\<open>os.path.getsize(p)\<close>
  (\<open>Inl e\<close>: it raises the \<^verbatim>\<open>OSError\<close> \<open>e\<close>), \<open>modified_recently p\<close> says whether
  \<^verbatim>\<open>os.path.getmtime(p)\<close> lies less than an hour back, and \<open>format_size n\<close> is the text that the
  local function \<^verbatim>\<open>format_size\<close> makes of \<open>n\<close> bytes.
\<close>

record env =
  repo_path :: string
  autostash_dir :: string
  git_outcome :: "nat \<Rightarrow> git_cmd \<Rightarrow> error option"
  fs_outcome :: "fs_cmd \<Rightarrow> error option"
  read_outcome :: "string \<Rightarrow> error option"
  repo_dirty :: bool
  pulled_files :: "(string \<times> string) list \<Rightarrow> (string \<times> string) list"
  pulled_history :: "commit list \<Rightarrow> commit list"
  commit_made :: "nat \<Rightarrow> commit"
  reset_files :: "commit list \<Rightarrow> (string \<times> string) list"
  now_us :: int
  local_time :: "int \<Rightarrow> int"
  show_date :: "int \<Rightarrow> string"
  head_ref :: string
  repo_size :: "nat \<Rightarrow> error + int"
  push_rejected :: "nat \<Rightarrow> bool"
  json_loads :: "string \<Rightarrow> error + json"
  json_dumps :: "json \<Rightarrow> string"
  now_stamp :: string
  getsize :: "string \<Rightarrow> error + nat"
  modified_recently :: "string \<Rightarrow> error + bool"
  format_size :: "nat \<Rightarrow> string"

type_synonym 'a action = "world \<Rightarrow> (error + 'a) \<times> world"

definition ret :: "'a \<Rightarrow> 'a action" where
  "ret x = (\<lambda>w. (Inr x, w))"

definition raise :: "error \<Rightarrow> 'a action" where
  "raise e = (\<lambda>w. (Inl e, w))"

definition seq :: "'a action \<Rightarrow> ('a \<Rightarrow> 'b action) \<Rightarrow> 'b action" where
  \<comment> \<open>statement sequencing: an exception skips the rest, the effects so far stay\<close>
  "seq m f = (\<lambda>w. case m w of (Inl e, w') \<Rightarrow> (Inl e, w') | (Inr x, w') \<Rightarrow> f x w')"

definition try_except :: "'a action \<Rightarrow> (error \<Rightarrow> 'a action) \<Rightarrow> 'a action" where
  \<comment> \<open>\<^verbatim>\<open>try: m  except Exception as e: h(e)\<close>\<close>
  "try_except m h = (\<lambda>w. case m w of (Inl e, w') \<Rightarrow> h e w' | (Inr x, w') \<Rightarrow> (Inr x, w'))"

definition logger :: "level \<Rightarrow> string \<Rightarrow> unit action" where
  "logger l msg = (\<lambda>w. (Inr (), w\<lparr>logged := logged w @ [(l, msg)]\<rparr>))"

definition under :: "string \<Rightarrow> string \<Rightarrow> bool" where
  \<comment> \<open>\<open>q\<close> is the path \<open>p\<close> or lies below the directory \<open>p\<close>\<close>
  "under p q = (q = p \<or> take (Suc (length p)) q = p @ ''/'')"

definition path_exists :: "world \<Rightarrow> string \<Rightarrow> bool" where
  \<comment> \<open>\<^verbatim>\<open>os.path.exists\<close>\<close>
  "path_exists w p = (p \<in> set (paths w) \<or> map_of (files w) p \<noteq> None)"

definition put_file :: "string \<Rightarrow> string \<Rightarrow> (string \<times> string) list \<Rightarrow> (string \<times> string) list" where
  "put_file p c fl = (p, c) # filter (\<lambda>(q, _). q \<noteq> p) fl"

fun fs_effect :: "fs_cmd \<Rightarrow> world \<Rightarrow> world" where
  "fs_effect (Makedirs p) w = (if p \<in> set (paths w) then w else w\<lparr>paths := paths w @ [p]\<rparr>)"
| "fs_effect (Rmtree p) w =
     w\<lparr>paths := filter (\<lambda>q. \<not> under p q) (paths w),
        files := filter (\<lambda>(q, _). \<not> under p q) (files w)\<rparr>"
| "fs_effect (Rsync src dst) w = (if dst \<in> set (paths w) then w else w\<lparr>paths := paths w @ [dst]\<rparr>)"
| "fs_effect (Copytree src dst) w = (if dst \<in> set (paths w) then w else w\<lparr>paths := paths w @ [dst]\<rparr>)"
| "fs_effect (Copy2 src dst) w =
     (case map_of (files w) src of
        None \<Rightarrow> w
      | Some c \<Rightarrow> w\<lparr>files := put_file dst c (files w)\<rparr>)"
| "fs_effect (WriteFile p c) w = w\<lparr>files := put_file p c (files w)\<rparr>"
| "fs_effect (AppendFile p c) w =
     w\<lparr>files := put_file p ((case map_of (files w) p of None \<Rightarrow> [] | Some old \<Rightarrow> old) @ c) (files w)\<rparr>"

definition fs :: "env \<Rightarrow> fs_cmd \<Rightarrow> unit action" where
  \<comment> \<open>a change of the filesystem: it is recorded, then fails with no effect or takes effect\<close>
  "fs env c = (\<lambda>w.
     let w' = w\<lparr>fs_log := fs_log w @ [c]\<rparr>
     in case fs_outcome env c of
          Some e \<Rightarrow> (Inl e, w')
        | None \<Rightarrow> (Inr (), fs_effect c w'))"

fun parent_history :: "string \<Rightarrow> commit list \<Rightarrow> commit list option" where
  \<comment> \<open>the branch after \<^verbatim>\<open>git reset --hard <sha>^\<close>; the root commit has no parent\<close>
  "parent_history revision [] = None"
| "parent_history revision (c # cs) =
     (if revision = hexsha c @ ''^'' then (if cs = [] then None else Some cs)
      else parent_history revision cs)"

fun git_refused :: "git_cmd \<Rightarrow> world \<Rightarrow> error option" where
  \<comment> \<open>a command that git cannot carry out whatever the outside answers\<close>
  "git_refused (ResetHard revision) w =
     (if parent_history revision (history w) = None
      then Some (Err GitCommandError (''fatal: ambiguous argument '' @ [CHR 0x27] @ revision @ [CHR 0x27] @ '': unknown revision or path not in the working tree.''))
      else None)"
| "git_refused c w = None"

definition tracked_reset :: "env \<Rightarrow> commit list \<Rightarrow> (string \<times> string) list \<Rightarrow> (string \<times> string) list" where
  \<comment> \<open>a hard reset rewrites the files below the clone and nothing else\<close>
  "tracked_reset env h fl =
     filter (\<lambda>(q, _). \<not> under (repo_path env) q) fl
     @ filter (\<lambda>(q, _). under (repo_path env) q) (reset_files env h)"

fun git_effect :: "env \<Rightarrow> nat \<Rightarrow> git_cmd \<Rightarrow> world \<Rightarrow> world" where
  "git_effect env n RemotePull w =
     w\<lparr>files := pulled_files env (files w), history := pulled_history env (history w)\<rparr>"
| "git_effect env n (Commit m) w = w\<lparr>history := commit_made env n # history w\<rparr>"
| "git_effect env n (ResetHard revision) w =
     (case parent_history revision (history w) of
        None \<Rightarrow> w
      | Some h \<Rightarrow> w\<lparr>history := h, files := tracked_reset env h (files w)\<rparr>)"
| "git_effect env n c w = w"

definition git :: "env \<Rightarrow> git_cmd \<Rightarrow> unit action" where
  "git env c = (\<lambda>w.
     let n = length (git_log w); w' = w\<lparr>git_log := git_log w @ [c]\<rparr>
     in case git_refused c w of
          Some e \<Rightarrow> (Inl e, w')
        | None \<Rightarrow>
            (case git_outcome env n c of
               Some e \<Rightarrow> (Inl e, w')
             | None \<Rightarrow> (Inr (), git_effect env n c w')))"

definition remote_push :: "env \<Rightarrow> bool action" where
  \<comment> \<open>\<^verbatim>\<open>self.repo.remotes.origin.push()\<close>; the value says whether a returned result carries
      an error flag (the remote rejected the ref)\<close>
  "remote_push env = (\<lambda>w.
     case git env RemotePush w of
       (Inl e, w') \<Rightarrow> (Inl e, w')
     | (Inr u, w') \<Rightarrow> (Inr (push_rejected env (length (git_log w))), w'))"

function decimal :: "nat \<Rightarrow> string" where
  \<comment> \<open>\<^verbatim>\<open>str(n)\<close> of a natural number\<close>
  "decimal n = (if n < 10 then [''0123456789'' ! n] else decimal (n div 10) @ [''0123456789'' ! (n mod 10)])"
  by pat_completeness auto
termination
  by (relation "measure id") auto

section \<open>Snapshot naming (\<open>BackupManager.run\<close>, lines 81--88)\<close>

definition backup_name_of :: "string list \<Rightarrow> string" where
  "backup_name_of folders =
     (let folder_names = map basename folders;
          backup_name = py_join ''_'' (take 3 folder_names)
      in if length folder_names > 3 then backup_name @ ''_etc'' else backup_name)"

definition backup_folder_name_of :: "string \<Rightarrow> string list \<Rightarrow> string" where
  \<comment> \<open>\<^verbatim>\<open>f"Backup_{timestamp}_{backup_name}"\<close>\<close>
  "backup_folder_name_of timestamp folders =
     ''Backup_'' @ timestamp @ ''_'' @ backup_name_of folders"

section \<open>Repository sync: \<open>BackupManager._git_commit_push\<close>\<close>

definition git_commit_push :: "env \<Rightarrow> unit action" where
  \<comment> \<open>the list that \<^verbatim>\<open>push()\<close> returns is not looked at\<close>
  "git_commit_push env =
     try_except
       (if repo_dirty env then
          seq (git env AddAll) (\<lambda>_.
          seq (git env (Commit ''AutoStash Backup'')) (\<lambda>_.
          (\<lambda>w. case remote_push env w of
                  (Inl e, w') \<Rightarrow>
                    if err_class e = GitCommandError
                    then seq (git env RemotePull) (\<lambda>_. seq (remote_push env) (\<lambda>_. ret ())) w'
                    else (Inl e, w')
                | (Inr flags, w') \<Rightarrow> (Inr (), w'))))
        else ret ())
       (\<lambda>e. if err_class e = GitCommandError
             then raise (Err PlainException (''Git error: '' @ str_of e))
             else raise (Err PlainException (''Failed to commit and push changes: '' @ str_of e)))"

text \<open>Environments and a world used as concrete inputs below.\<close>

definition env_always_ok :: env where
  "env_always_ok = \<lparr> repo_path = ''/home/u/.autostash_repo'', autostash_dir = ''/home/u/.autostash'',
     git_outcome = (\<lambda>n c. None), fs_outcome = (\<lambda>c. None), read_outcome = (\<lambda>p. None),
     repo_dirty = True, pulled_files = (\<lambda>fl. fl), pulled_history = (\<lambda>h. h),
     commit_made = (\<lambda>n. \<lparr> hexsha = ''c'' @ decimal n, committed_date = 1704110400 + int n \<rparr>),
     reset_files = (\<lambda>h. []), now_us = 1717236000000000,
     local_time = (\<lambda>t. t * 1000000),
     show_date = (\<lambda>t. if t = 1704276000 then ''2024-01-03 10:00:00''
                     else if t = 1704189600 then ''2024-01-02 10:00:00''
                     else if t = 1704103200 then ''2024-01-01 10:00:00''
                     else ''2024-06-01 10:00:00''),
     head_ref = ''refs/heads/main'',
     repo_size = (\<lambda>n. Inr (5000 - 100 * int n)), push_rejected = (\<lambda>n. False),
     json_loads = (\<lambda>s. Inl (Err JSONDecodeError ''Expecting value'')), json_dumps = (\<lambda>j. []),
     now_stamp = ''2024-06-01 10:00:00'', getsize = (\<lambda>p. Inr 1024),
     modified_recently = (\<lambda>p. Inr True), format_size = (\<lambda>n. decimal n @ ''.0 B'') \<rparr>"

definition env_push_rejected :: env where
  \<comment> \<open>every command succeeds, but the remote rejects what is pushed\<close>
  "env_push_rejected = env_always_ok \<lparr> push_rejected := (\<lambda>n. True) \<rparr>"

definition world_empty :: world where
  "world_empty = \<lparr> paths = [], files = [], history = [], git_log = [], fs_log = [], logged = [],
      progress = [], self_incremental = True \<rparr>"

section \<open>History ledger: \<open>BackupManager.sync_backup_history\<close>\<close>

subsection \<open>Reading a text file line by line\<close>

text \<open>
  A file opened in text mode is read with universal newlines: \<open>\r\n\<close> and a lone
  \<open>\r\<close> arrive as \<open>\n\<close>. Iterating over the file yields the lines with their terminator;
  \<^verbatim>\<open>str.strip()\<close> removes white space (the code points below 256 that Python counts as
  white space) at both ends. Writing leaves \<open>\n\<close> as it is.
\<close>

fun universal_newlines :: "string \<Rightarrow> string" where
  "universal_newlines [] = []"
| "universal_newlines [c] = [if c = CHR 0x0D then CHR 0x0A else c]"
| "universal_newlines (c # d # ds) =
     (if c = CHR 0x0D \<and> d = CHR 0x0A then CHR 0x0A # universal_newlines ds
      else if c = CHR 0x0D then CHR 0x0A # universal_newlines (d # ds)
      else c # universal_newlines (d # ds))"

fun lines_from :: "string \<Rightarrow> string \<Rightarrow> string list" where
  "lines_from cur [] = (if cur = [] then [] else [cur])"
| "lines_from cur (c # cs) =
     (if c = CHR 0x0A then (cur @ [c]) # lines_from [] cs else lines_from (cur @ [c]) cs)"

definition file_lines :: "string \<Rightarrow> string list" where
  \<comment> \<open>\<^verbatim>\<open>for line in f\<close>\<close>
  "file_lines content = lines_from [] content"

definition is_space :: "char \<Rightarrow> bool" where
  "is_space c = (c \<in> set [CHR 0x09, CHR 0x0A, CHR 0x0B, CHR 0x0C, CHR 0x0D, CHR 0x1C, CHR 0x1D,
                           CHR 0x1E, CHR 0x1F, CHR 0x20, CHR 0x85, CHR 0xA0])"

definition py_strip :: "string \<Rightarrow> string" where
  "py_strip s = rev (dropWhile is_space (rev (dropWhile is_space s)))"

definition stripped_lines :: "string \<Rightarrow> string list" where
  \<comment> \<open>\<^verbatim>\<open>[line.strip() for line in f if line.strip()]\<close>\<close>
  "stripped_lines content = filter (\<lambda>l. l \<noteq> []) (map py_strip (file_lines content))"

definition open_read :: "env \<Rightarrow> (string \<times> string) list \<Rightarrow> string \<Rightarrow> error + string" where
  "open_read env fl p =
     (case read_outcome env p of
        Some e \<Rightarrow> Inl e
      | None \<Rightarrow> (case map_of fl p of
                   None \<Rightarrow> Inl (Err OtherError (''[Errno 2] No such file or directory: '' @ p))
                 | Some c \<Rightarrow> Inr (universal_newlines c)))"

definition read_text :: "env \<Rightarrow> string \<Rightarrow> string action" where
  \<comment> \<open>\<^verbatim>\<open>with open(p, "r") as f: f.read()\<close>\<close>
  "read_text env p = (\<lambda>w. (open_read env (files w) p, w))"

subsection \<open>The values of a parsed entry\<close>

fun truthy :: "json \<Rightarrow> bool" where
  "truthy JNull = False"
| "truthy (JBool b) = b"
| "truthy (JNum n) = (n \<noteq> 0)"
| "truthy (JFloat x) = (x \<noteq> Finite 0)"
| "truthy (JStr s) = (s \<noteq> [])"
| "truthy (JArr xs) = (xs \<noteq> [])"
| "truthy (JObj kvs) = (kvs \<noteq> [])"

fun hashable :: "json \<Rightarrow> bool" where
  "hashable (JArr xs) = False"
| "hashable (JObj kvs) = False"
| "hashable j = True"

fun num_of :: "json \<Rightarrow> pyfloat option" where
  \<comment> \<open>the value of a number; \<^verbatim>\<open>bool\<close> is a subclass of \<^verbatim>\<open>int\<close>\<close>
  "num_of (JBool b) = Some (Finite (if b then 1 else 0))"
| "num_of (JNum n) = Some (Finite (of_int n))"
| "num_of (JFloat x) = Some x"
| "num_of j = None"

fun str_val :: "json \<Rightarrow> string option" where
  "str_val (JStr s) = Some s"
| "str_val j = None"

definition py_eq :: "json \<Rightarrow> json \<Rightarrow> bool" where
  \<comment> \<open>\<^verbatim>\<open>==\<close> on hashable values\<close>
  "py_eq a b =
     (case (str_val a, str_val b) of
        (Some x, Some y) \<Rightarrow> x = y
      | _ \<Rightarrow> (case (num_of a, num_of b) of
                (Some x, Some y) \<Rightarrow> x = y
              | _ \<Rightarrow> a = JNull \<and> b = JNull))"

fun type_name :: "json \<Rightarrow> string" where
  "type_name JNull = ''NoneType''"
| "type_name (JBool b) = ''bool''"
| "type_name (JNum n) = ''int''"
| "type_name (JFloat x) = ''float''"
| "type_name (JStr s) = ''str''"
| "type_name (JArr xs) = ''list''"
| "type_name (JObj kvs) = ''dict''"

fun py_get :: "json \<Rightarrow> string \<Rightarrow> error + json" where
  \<comment> \<open>\<^verbatim>\<open>data.get(key)\<close>: only a dict has the method\<close>
  "py_get (JObj kvs) k = Inr (case map_of kvs k of None \<Rightarrow> JNull | Some v \<Rightarrow> v)"
| "py_get j k = Inl (Err OtherError ([CHR 0x27] @ type_name j @ [CHR 0x27] @ '' object has no attribute '' @ [CHR 0x27] @ ''get'' @ [CHR 0x27]))"

fun py_item :: "json \<Rightarrow> string \<Rightarrow> error + json" where
  \<comment> \<open>\<^verbatim>\<open>data[key]\<close>\<close>
  "py_item (JObj kvs) k =
     (case map_of kvs k of None \<Rightarrow> Inl (Err OtherError ([CHR 0x27] @ k @ [CHR 0x27])) | Some v \<Rightarrow> Inr v)"
| "py_item j k = Inl (Err OtherError ''indices must be integers or the object is not subscriptable'')"

subsection \<open>Merging\<close>

text \<open>
  One of the two loops over the entries of a ledger. The state is
  \<open>(merged_entries, seen_timestamps)\<close>; a line for which the parser raises
  \<^verbatim>\<open>json.JSONDecodeError\<close> is skipped (\<^verbatim>\<open>except json.JSONDecodeError: continue\<close>), any other
  exception, of the parser or of the lines after it, leaves the loop.
\<close>

fun add_entries :: "(string \<Rightarrow> error + json) \<Rightarrow> string list \<Rightarrow> string list \<times> json list
                      \<Rightarrow> error + string list \<times> json list" where
  "add_entries loads [] acc = Inr acc"
| "add_entries loads (entry # rest) (merged_entries, seen_timestamps) =
     (case loads entry of
        Inl e \<Rightarrow> if err_class e = JSONDecodeError
                 then add_entries loads rest (merged_entries, seen_timestamps)
                 else Inl e
      | Inr data \<Rightarrow>
          (case py_get data ''timestamp'' of
             Inl e \<Rightarrow> Inl e
           | Inr timestamp \<Rightarrow>
               if \<not> truthy timestamp then add_entries loads rest (merged_entries, seen_timestamps)
               else if \<not> hashable timestamp
                    then Inl (Err OtherError (''unhashable type: '' @ [CHR 0x27] @ type_name timestamp @ [CHR 0x27]))
               else if list_ex (py_eq timestamp) seen_timestamps
                    then add_entries loads rest (merged_entries, seen_timestamps)
               else add_entries loads rest (merged_entries @ [entry], seen_timestamps @ [timestamp])))"

fun sort_keys :: "(string \<Rightarrow> error + json) \<Rightarrow> string list \<Rightarrow> error + json list" where
  \<comment> \<open>the keys \<^verbatim>\<open>json.loads(x)['timestamp']\<close>, computed for every element before sorting\<close>
  "sort_keys loads [] = Inr []"
| "sort_keys loads (x # xs) =
     (case loads x of
        Inl e \<Rightarrow> Inl e
      | Inr data \<Rightarrow>
          (case py_item data ''timestamp'' of
             Inl e \<Rightarrow> Inl e
           | Inr k \<Rightarrow> (case sort_keys loads xs of Inl e \<Rightarrow> Inl e | Inr ks \<Rightarrow> Inr (k # ks))))"

definition sort_reverse :: "('k::linorder) list \<Rightarrow> 'a list \<Rightarrow> 'a list" where
  \<comment> \<open>\<^verbatim>\<open>list.sort(key=..., reverse=True)\<close>: reverse, sort stably, reverse\<close>
  "sort_reverse ks xs = rev (map snd (sort_key fst (rev (zip ks xs))))"

definition sort_by_timestamp :: "(string \<Rightarrow> error + json) \<Rightarrow> string list \<Rightarrow> error + string list" where
  \<comment> \<open>Strings compare with strings, numbers with numbers; any other comparison raises
      \<^verbatim>\<open>TypeError\<close>, and with two elements or more some such comparison is made.\<close>
  "sort_by_timestamp loads merged_entries =
     (case sort_keys loads merged_entries of
        Inl e \<Rightarrow> Inl e
      | Inr ks \<Rightarrow>
          if length merged_entries \<le> 1 then Inr merged_entries
          else if list_all (\<lambda>k. str_val k \<noteq> None) ks
               then Inr (sort_reverse (map (\<lambda>k. the (str_val k)) ks) merged_entries)
          else if list_all (\<lambda>k. num_of k \<noteq> None) ks
               then Inr (sort_reverse (map (\<lambda>k. the (num_of k)) ks) merged_entries)
          else Inl (Err OtherError ''not supported between instances''))"

definition merge_entries :: "(string \<Rightarrow> error + json) \<Rightarrow> string list \<Rightarrow> string list \<Rightarrow> error + string list" where
  "merge_entries loads repo_entries local_entries =
     (case add_entries loads repo_entries ([], []) of
        Inl e \<Rightarrow> Inl e
      | Inr acc \<Rightarrow>
          (case add_entries loads local_entries acc of
             Inl e \<Rightarrow> Inl e
           | Inr (merged_entries, seen_timestamps) \<Rightarrow> sort_by_timestamp loads merged_entries))"

definition lift :: "error + 'a \<Rightarrow> 'a action" where
  "lift r = (\<lambda>w. (r, w))"

definition repo_history_path :: "env \<Rightarrow> string" where
  "repo_history_path env = path_join (repo_path env) ''backup_history''"

definition local_history_path :: "env \<Rightarrow> string" where
  \<comment> \<open>\<^verbatim>\<open>os.path.expanduser("~/.autostash/backup_history")\<close>\<close>
  "local_history_path env = path_join (autostash_dir env) ''backup_history''"

definition sync_backup_history :: "env \<Rightarrow> nat action" where
  "sync_backup_history env =
     try_except
       (\<lambda>w. if path_exists w (repo_history_path env) then
          (seq (read_text env (repo_history_path env)) (\<lambda>repo_text.
           seq (\<lambda>w. if path_exists w (local_history_path env)
                    then read_text env (local_history_path env) w
                    else (Inr [], w)) (\<lambda>local_text.
           seq (lift (merge_entries (json_loads env)
                        (stripped_lines repo_text) (stripped_lines local_text))) (\<lambda>merged_entries.
           seq (\<lambda>w. if path_exists w (repo_history_path env)
                    then read_text env (repo_history_path env) w
                    else (Inr [], w)) (\<lambda>current_repo_content.
           let new_content = py_join [CHR 0x0A] merged_entries @ [CHR 0x0A] in
           seq (if current_repo_content \<noteq> new_content then
                  seq (fs env (WriteFile (repo_history_path env) new_content)) (\<lambda>_.
                  seq (fs env (WriteFile (local_history_path env) new_content)) (\<lambda>_.
                  seq (git env (Add (repo_history_path env))) (\<lambda>_.
                  seq (git env (Commit ''Sync backup history'')) (\<lambda>_.
                  seq (git env Push) (\<lambda>_.
                  logger INFO (''Backup history synced: '' @ decimal (length merged_entries) @ '' entries''))))))
                else logger INFO ''No changes to sync in backup history'') (\<lambda>_.
           ret (length merged_entries))))))) w
        else ret 0 w)
       (\<lambda>e. seq (logger ERROR (''Failed to sync backup history: '' @ str_of e)) (\<lambda>_. raise e))"

subsection \<open>Notions used in the proofs about the ledger\<close>

text \<open>
  \<open>entry_ts\<close> is the timestamp under which the loops keep a line (\<open>None\<close>: the line is
  skipped or makes the loop raise). Two timestamps are the same for the loops when \<open>py_eq\<close>
  holds of them; \<open>key_of\<close> is what this leaves of a string or a number (the string, or the
  value of the number: \<^verbatim>\<open>1\<close>, \<^verbatim>\<open>1.0\<close> and \<^verbatim>\<open>true\<close> are one timestamp), \<open>ts_key\<close> is the key of
  a line and \<open>key_less\<close> the order in which \<^verbatim>\<open>list.sort\<close> compares two keys of one kind.
  \<open>entry_ok\<close> holds of a line for which the parser raises \<^verbatim>\<open>json.JSONDecodeError\<close> or that
  parses to an object whose timestamp is absent, falsy, a string or a number; \<open>same_kind\<close>
  holds of lines whose keys are all strings or all numbers.
  The other definitions name parts of \<open>sync_backup_history\<close>.
\<close>

definition clean_entry :: "string \<Rightarrow> bool" where
  "clean_entry l = (l \<noteq> [] \<and> py_strip l = l \<and> CHR 0x0A \<notin> set l \<and> CHR 0x0D \<notin> set l)"

definition entry_ts :: "(string \<Rightarrow> error + json) \<Rightarrow> string \<Rightarrow> json option" where
  "entry_ts loads e =
     (case loads e of
        Inl err \<Rightarrow> None
      | Inr data \<Rightarrow>
          (case py_get data ''timestamp'' of
             Inl err \<Rightarrow> None
           | Inr t \<Rightarrow> if truthy t \<and> hashable t then Some t else None))"

definition merged_inv :: "(string \<Rightarrow> error + json) \<Rightarrow> string list \<Rightarrow> bool" where
  "merged_inv loads m =
     ((\<forall>e\<in>set m. entry_ts loads e \<noteq> None) \<and> distinct m
      \<and> (\<forall>x\<in>set m. \<forall>y\<in>set m. x \<noteq> y \<longrightarrow>
            \<not> py_eq (the (entry_ts loads x)) (the (entry_ts loads y))))"

definition new_content_of :: "string list \<Rightarrow> string" where
  "new_content_of m = py_join [CHR 0x0A] m @ [CHR 0x0A]"

definition local_text :: "env \<Rightarrow> world \<Rightarrow> error + string" where
  "local_text env w =
     (if path_exists w (local_history_path env)
      then open_read env (files w) (local_history_path env) else Inr [])"

definition write_merged :: "env \<Rightarrow> string list \<Rightarrow> unit action" where
  "write_merged env m =
     seq (fs env (WriteFile (repo_history_path env) (new_content_of m))) (\<lambda>_.
     seq (fs env (WriteFile (local_history_path env) (new_content_of m))) (\<lambda>_.
     seq (git env (Add (repo_history_path env))) (\<lambda>_.
     seq (git env (Commit ''Sync backup history'')) (\<lambda>_.
     seq (git env Push) (\<lambda>_.
     logger INFO (''Backup history synced: '' @ decimal (length m) @ '' entries''))))))"

definition sync_failed :: "error \<Rightarrow> world \<Rightarrow> (error + nat) \<times> world" where
  "sync_failed e w = (Inl e, w\<lparr>logged := logged w @ [(ERROR, ''Failed to sync backup history: '' @ str_of e)]\<rparr>)"

datatype ts_key = KStr string | KNum pyfloat

definition key_of :: "json \<Rightarrow> ts_key option" where
  "key_of t = (case str_val t of Some s \<Rightarrow> Some (KStr s) | None \<Rightarrow> map_option KNum (num_of t))"

definition ts_key :: "(string \<Rightarrow> error + json) \<Rightarrow> string \<Rightarrow> ts_key option" where
  "ts_key loads e = (case entry_ts loads e of None \<Rightarrow> None | Some t \<Rightarrow> key_of t)"


definition entry_ok :: "(string \<Rightarrow> error + json) \<Rightarrow> string \<Rightarrow> bool" where
  "entry_ok loads l =
     (case loads l of
        Inl e \<Rightarrow> err_class e = JSONDecodeError
      | Inr (JObj kvs) \<Rightarrow>
          (case map_of kvs ''timestamp'' of
             None \<Rightarrow> True
           | Some t \<Rightarrow> if truthy t then key_of t \<noteq> None else True)
      | Inr other \<Rightarrow> False)"


text \<open>
  Sample ledger lines, with a parser that agrees with \<^verbatim>\<open>json.loads\<close> on them and on the
  line \<open>not json\<close>.
\<close>

definition repo_line_a :: string where
  \<open>repo_line_a = ''{"timestamp": "20240102_0900", "total_files": 7}''\<close>

definition repo_line_b :: string where
  \<open>repo_line_b = ''{"timestamp": "20240101_1200", "total_files": 3}''\<close>

definition local_line_b :: string where
  \<open>local_line_b = ''{"timestamp": "20240101_1200", "total_files": 4}''\<close>

definition local_line_c :: string where
  \<open>local_line_c = ''{"timestamp": "20240103_0800", "total_files": 1}''\<close>

definition sample_loads :: "string \<Rightarrow> error + json" where
  "sample_loads l =
     (case map_of
        [(repo_line_a, JObj [(''timestamp'', JStr ''20240102_0900''), (''total_files'', JNum 7)]),
         (repo_line_b, JObj [(''timestamp'', JStr ''20240101_1200''), (''total_files'', JNum 3)]),
         (local_line_b, JObj [(''timestamp'', JStr ''20240101_1200''), (''total_files'', JNum 4)]),
         (local_line_c, JObj [(''timestamp'', JStr ''20240103_0800''), (''total_files'', JNum 1)])] l of
        Some data \<Rightarrow> Inr data
      | None \<Rightarrow> Inl (Err JSONDecodeError ''Expecting value: line 1 column 1 (char 0)''))"

definition env_ledger :: env where
  "env_ledger = env_always_ok \<lparr> json_loads := sample_loads \<rparr>"

definition world_ledger :: world where
  "world_ledger = world_empty \<lparr> files :=
     [(''/home/u/.autostash_repo/backup_history'', repo_line_a @ [CHR 0x0A] @ repo_line_b @ [CHR 0x0A]),
      (''/home/u/.autostash/backup_history'',
         local_line_b @ [CHR 0x0D, CHR 0x0A] @ ''  '' @ local_line_c @ [CHR 0x0A] @ ''not json'' @ [CHR 0x0A])] \<rparr>"









section \<open>System-file collector: \<open>BackupManager._backup_system_files\<close>\<close>


definition system_file_dir :: "string \<Rightarrow> string \<Rightarrow> string" where
  \<comment> \<open>\<^verbatim>\<open>os.path.join(system_backup_path, os.path.dirname(file_path)[1:])\<close>\<close>
  "system_file_dir system_backup_path file_path = path_join system_backup_path (drop 1 (dirname file_path))"

definition system_file_target :: "string \<Rightarrow> string \<Rightarrow> string" where
  \<comment> \<open>\<^verbatim>\<open>os.path.join(dest_dir, os.path.basename(file_path))\<close>\<close>
  "system_file_target system_backup_path file_path =
     path_join (system_file_dir system_backup_path file_path) (basename file_path)"

definition backup_system_file :: "env \<Rightarrow> string \<Rightarrow> string \<Rightarrow> unit action" where
  "backup_system_file env system_backup_path file_path = (\<lambda>w.
     if path_exists w file_path then
       try_except
         (seq (fs env (Makedirs (system_file_dir system_backup_path file_path))) (\<lambda>_.
          seq (fs env (Copy2 file_path (system_file_target system_backup_path file_path))) (\<lambda>_.
          logger INFO (''Backed up: '' @ file_path))))
         (\<lambda>e. if err_class e = PermissionError
               then logger WARNING (''Permission denied for: '' @ file_path)
               else logger ERROR (''Failed to backup '' @ file_path @ '': '' @ str_of e)) w
     else (Inr (), w))"







section \<open>Retention: \<open>BackupManager.cleanup_old_backups\<close>\<close>

text \<open>
  The model covers a call with a number of days (an integer); with \<^verbatim>\<open>None\<close> the method
  hands over to \<^verbatim>\<open>cleanup_all_backups\<close>. A \<^verbatim>\<open>timedelta\<close> has at most 999999999 days and a
  \<^verbatim>\<open>datetime\<close> lies between the years 1 and 9999: outside, the subtraction raises
  \<^verbatim>\<open>OverflowError\<close>. On a branch without commits \<^verbatim>\<open>iter_commits\<close> raises \<^verbatim>\<open>ValueError\<close>.
\<close>

record cleanup_result =
  removed :: nat
  space_freed :: int

definition str_int :: "int \<Rightarrow> string" where
  "str_int i = (if i < 0 then ''-'' @ decimal (nat (- i)) else decimal (nat i))"

definition get_repo_size :: "env \<Rightarrow> int action" where
  "get_repo_size env = (\<lambda>w. (repo_size env (length (git_log w)), w))"

definition retention_cutoff :: "env \<Rightarrow> int \<Rightarrow> error + int" where
  \<comment> \<open>\<^verbatim>\<open>datetime.datetime.now() - datetime.timedelta(days=retention_days)\<close>\<close>
  "retention_cutoff env retention_days =
     (if retention_days < - 999999999 \<or> 999999999 < retention_days
      then Inl (Err OtherError (''days='' @ str_int retention_days @ ''; must have magnitude <= 999999999''))
      else let t = now_us env - retention_days * 86400000000
           in if t < - 62135596800000000 \<or> 253402300799999999 < t
              then Inl (Err OtherError ''date value out of range'')
              else Inr t)"

definition iter_commits :: "env \<Rightarrow> commit list action" where
  \<comment> \<open>\<^verbatim>\<open>list(self.repo.iter_commits())\<close>\<close>
  "iter_commits env = (\<lambda>w.
     if history w = []
     then (Inl (Err ValueError (''Reference at '' @ [CHR 0x27] @ head_ref env @ [CHR 0x27] @ '' does not exist'')), w)
     else (Inr (history w), w))"

fun cleanup_commits :: "env \<Rightarrow> int \<Rightarrow> commit list \<Rightarrow> cleanup_result \<Rightarrow> cleanup_result action" where
  "cleanup_commits env cutoff_date [] result = ret result"
| "cleanup_commits env cutoff_date (c # commits) result =
     (if local_time env (committed_date c) < cutoff_date then
        seq (try_except
               (seq (get_repo_size env) (\<lambda>size_before.
                seq (git env (ResetHard (hexsha c @ ''^''))) (\<lambda>_.
                seq (git env PushForce) (\<lambda>_.
                seq (get_repo_size env) (\<lambda>size_after.
                seq (logger INFO (''Removed backup from '' @ show_date env (committed_date c))) (\<lambda>_.
                ret (result\<lparr>space_freed := space_freed result + (size_before - size_after),
                            removed := removed result + 1\<rparr>)))))))
               (\<lambda>e. seq (logger ERROR (''Failed to remove backup from '' @ show_date env (committed_date c)
                                         @ '': '' @ str_of e)) (\<lambda>_. ret result)))
            (\<lambda>result'. cleanup_commits env cutoff_date commits result')
      else cleanup_commits env cutoff_date commits result)"

definition cleanup_old_backups :: "env \<Rightarrow> int \<Rightarrow> cleanup_result action" where
  "cleanup_old_backups env retention_days =
     try_except
       (seq (logger INFO (''Starting cleanup of backups older than '' @ str_int retention_days @ '' days'')) (\<lambda>_.
        seq (lift (retention_cutoff env retention_days)) (\<lambda>cutoff_date.
        seq (iter_commits env) (\<lambda>commits.
        seq (cleanup_commits env cutoff_date commits \<lparr>removed = 0, space_freed = 0\<rparr>) (\<lambda>result.
        seq (logger INFO (''Cleanup completed: '' @ decimal (removed result) @ '' backups removed, ''
                          @ str_int (space_freed result) @ '' bytes freed'')) (\<lambda>_.
        ret result))))))
       (\<lambda>e. seq (logger ERROR (''Cleanup process failed: '' @ str_of e)) (\<lambda>_. raise e))"

text \<open>
  A clone whose branch has exactly three commits, all from January 2024, with a local
  ledger and a last-run marker; the clock of \<open>env_always_ok\<close> stands at 1 June 2024.
\<close>

definition world_three_commits :: world where
  "world_three_commits = world_empty \<lparr>
     paths := [''/home/u/.autostash_repo'', ''/home/u/.autostash''],
     files := [(''/home/u/.autostash/backup_history'', ''{}''),
               (''/home/u/.autostash/last_backup'', ''2024-01-03 10:00:00'')],
     history := [\<lparr> hexsha = ''c3c3c3'', committed_date = 1704276000 \<rparr>,
                 \<lparr> hexsha = ''b2b2b2'', committed_date = 1704189600 \<rparr>,
                 \<lparr> hexsha = ''a1a1a1'', committed_date = 1704103200 \<rparr>] \<rparr>"

section \<open>Packager: \<open>BackupManager._process_backup_files\<close>\<close>

text \<open>
  The staging directory is a tree as \<^verbatim>\<open>os.walk\<close> sees it: a directory holds its files
  (name and content) and its subdirectories. A path is the list of names below the
  staging directory. Listings come in the order of the lists.
\<close>

datatype tree = Dir (dfiles: "(string \<times> string) list") (subdirs: "(string \<times> tree) list")

text \<open>
  What the outside answers to the packager: the fate of copying and of moving the
  manifest (\<open>pk_move True\<close>: the move in the \<^verbatim>\<open>except\<close> branch), of writing the archive of
  a folder (\<open>Some (e, partial)\<close>: it raises \<open>e\<close> and leaves \<open>partial\<close> in the archive file), of
  removing a path and of encrypting a file; the archive bytes, the keys that
  \<^verbatim>\<open>gpg.list_keys()\<close> returns and the ciphertext. An operation that raises leaves no other
  trace than stated.
\<close>

record penv =
  pk_copy2 :: "error option"
  pk_move :: "bool \<Rightarrow> error option"
  pk_tar :: "string list \<Rightarrow> (error \<times> string) option"
  pk_tar_bytes :: "tree \<Rightarrow> string"
  pk_remove :: "string list \<Rightarrow> error option"
  pk_keys :: "string list"
  pk_encrypt :: "string list \<Rightarrow> error option"
  pk_cipher :: "string \<Rightarrow> string \<Rightarrow> string"

record pstate =
  staged :: tree
  pk_logged :: "(level \<times> string) list"

definition put_dir :: "string \<Rightarrow> tree \<Rightarrow> (string \<times> tree) list \<Rightarrow> (string \<times> tree) list" where
  "put_dir n t ds = map (\<lambda>(m, u). if m = n then (m, t) else (m, u)) ds"

definition del_name :: "string \<Rightarrow> (string \<times> 'a) list \<Rightarrow> (string \<times> 'a) list" where
  "del_name n xs = filter (\<lambda>(m, _). m \<noteq> n) xs"

definition is_manifest_name :: "string \<Rightarrow> bool" where
  \<comment> \<open>\<^verbatim>\<open>item == "metadata.json" or item == "metadata.json.tmp"\<close>\<close>
  "is_manifest_name n = (n = ''metadata.json'' \<or> n = ''metadata.json.tmp'')"

fun remove_items :: "penv \<Rightarrow> string list \<Rightarrow> string list \<Rightarrow> tree \<Rightarrow> error option \<times> tree" where
  \<comment> \<open>the loop that removes the originals after compression\<close>
  "remove_items env path [] t = (None, t)"
| "remove_items env path (item # items) t =
     (if item \<in> set [''backup.tar.gz'', ''metadata.json'', ''metadata.json.tmp'']
      then remove_items env path items t
      else if map_of (dfiles t) item \<noteq> None \<or> map_of (subdirs t) item \<noteq> None then
        (case pk_remove env (path @ [item]) of
           Some e \<Rightarrow> (Some e, t)
         | None \<Rightarrow>
             remove_items env path items
               (if map_of (dfiles t) item \<noteq> None
                then Dir (del_name item (dfiles t)) (subdirs t)
                else Dir (dfiles t) (del_name item (subdirs t))))
      else remove_items env path items t)"

definition compress_folder :: "penv \<Rightarrow> string list \<Rightarrow> tree \<Rightarrow> error option \<times> tree" where
  "compress_folder env path t =
     (case pk_tar env path of
        Some (e, partial) \<Rightarrow> (Some e, Dir (put_file ''backup.tar.gz'' partial (dfiles t)) (subdirs t))
      | None \<Rightarrow>
          (let archived = Dir (filter (\<lambda>(n, _). \<not> is_manifest_name n \<and> n \<noteq> ''backup.tar.gz'') (dfiles t))
                              (filter (\<lambda>(n, _). \<not> is_manifest_name n) (subdirs t));
               t1 = Dir (put_file ''backup.tar.gz'' (pk_tar_bytes env archived) (dfiles t)) (subdirs t)
           in remove_items env path (map fst (dfiles t1) @ map fst (subdirs t1)) t1))"

fun encrypt_files :: "penv \<Rightarrow> string \<Rightarrow> string list \<Rightarrow> string list \<Rightarrow> (string \<times> string) list
                        \<Rightarrow> error option \<times> (string \<times> string) list" where
  \<comment> \<open>the files of one directory, in the order of the listing taken on arrival\<close>
  "encrypt_files env key path [] fl = (None, fl)"
| "encrypt_files env key path (file # rest) fl =
     (if is_manifest_name file then encrypt_files env key path rest fl
      else case map_of fl file of
             None \<Rightarrow> (Some (Err OtherError (''[Errno 2] No such file or directory: '' @ file)), fl)
           | Some c \<Rightarrow>
               (case pk_encrypt env (path @ [file]) of
                  Some e \<Rightarrow> (Some e, fl)
                | None \<Rightarrow>
                    (let fl1 = put_file (file @ ''.gpg'') (pk_cipher env key c) fl
                     in case pk_remove env (path @ [file]) of
                          Some e \<Rightarrow> (Some e, fl1)
                        | None \<Rightarrow> encrypt_files env key path rest (del_name file fl1))))"

fun encrypt_walk :: "penv \<Rightarrow> string \<Rightarrow> string list \<Rightarrow> tree \<Rightarrow> error option \<times> tree"
  and encrypt_walk_dirs :: "penv \<Rightarrow> string \<Rightarrow> string list \<Rightarrow> (string \<times> tree) list
                              \<Rightarrow> error option \<times> (string \<times> tree) list" where
  "encrypt_walk env key path (Dir fl ds) =
     (case encrypt_files env key path (map fst fl) fl of
        (Some e, fl') \<Rightarrow> (Some e, Dir fl' ds)
      | (None, fl') \<Rightarrow>
          (case encrypt_walk_dirs env key path ds of (r, ds') \<Rightarrow> (r, Dir fl' ds')))"
| "encrypt_walk_dirs env key path [] = (None, [])"
| "encrypt_walk_dirs env key path ((n, t) # ds) =
     (case encrypt_walk env key (path @ [n]) t of
        (Some e, t') \<Rightarrow> (Some e, (n, t') # ds)
      | (None, t') \<Rightarrow>
          (case encrypt_walk_dirs env key path ds of (r, ds') \<Rightarrow> (r, (n, t') # ds')))"

definition encrypt_folder :: "penv \<Rightarrow> bool \<Rightarrow> string list \<Rightarrow> tree \<Rightarrow> error option \<times> tree" where
  "encrypt_folder env compress path t =
     (case pk_keys env of
        [] \<Rightarrow> (Some (Err PlainException ''No GPG keys found. Please create a key first.''), t)
      | key # _ \<Rightarrow>
          if compress then
            (case map_of (dfiles t) ''backup.tar.gz'' of
               None \<Rightarrow> (Some (Err OtherError ''[Errno 2] No such file or directory: backup.tar.gz''), t)
             | Some c \<Rightarrow>
                 (case pk_encrypt env (path @ [''backup.tar.gz'']) of
                    Some e \<Rightarrow> (Some e, t)
                  | None \<Rightarrow>
                      (let t1 = Dir (put_file ''backup.tar.gz.gpg'' (pk_cipher env key c) (dfiles t)) (subdirs t)
                       in case pk_remove env (path @ [''backup.tar.gz'']) of
                            Some e \<Rightarrow> (Some e, t1)
                          | None \<Rightarrow> (None, Dir (del_name ''backup.tar.gz'' (dfiles t1)) (subdirs t1)))))
          else encrypt_walk env key path t)"

definition process_folder :: "penv \<Rightarrow> bool \<Rightarrow> bool \<Rightarrow> string list \<Rightarrow> tree \<Rightarrow> error option \<times> tree" where
  "process_folder env compress encrypt path t =
     (case (if compress then compress_folder env path t else (None, t)) of
        (Some e, t1) \<Rightarrow> (Some e, t1)
      | (None, t1) \<Rightarrow> if encrypt then encrypt_folder env compress path t1 else (None, t1))"

fun process_folders :: "penv \<Rightarrow> bool \<Rightarrow> bool \<Rightarrow> string list \<Rightarrow> tree \<Rightarrow> error option \<times> tree" where
  \<comment> \<open>the loop over \<^verbatim>\<open>os.listdir(temp_dir)\<close>: only directories other than \<open>.git\<close> are processed\<close>
  "process_folders env compress encrypt [] temp_root = (None, temp_root)"
| "process_folders env compress encrypt (folder_name # names) temp_root =
     (case map_of (subdirs temp_root) folder_name of
        None \<Rightarrow> process_folders env compress encrypt names temp_root
      | Some t \<Rightarrow>
          if folder_name = ''.git'' then process_folders env compress encrypt names temp_root
          else (case process_folder env compress encrypt [folder_name] t of
                  (Some e, t') \<Rightarrow> (Some e, Dir (dfiles temp_root) (put_dir folder_name t' (subdirs temp_root)))
                | (None, t') \<Rightarrow>
                    process_folders env compress encrypt names
                      (Dir (dfiles temp_root) (put_dir folder_name t' (subdirs temp_root)))))"

definition exists_in :: "tree \<Rightarrow> string \<Rightarrow> bool" where
  "exists_in t n = (map_of (dfiles t) n \<noteq> None \<or> map_of (subdirs t) n \<noteq> None)"

definition copy_manifest :: "penv \<Rightarrow> tree \<Rightarrow> error option \<times> tree" where
  \<comment> \<open>\<^verbatim>\<open>shutil.copy2(metadata_path, temp_metadata)\<close>; a destination that is a directory
      receives the file under its own name\<close>
  "copy_manifest env temp_root =
     (case map_of (dfiles temp_root) ''metadata.json'' of
        None \<Rightarrow> (Some (Err OtherError ''[Errno 21] Is a directory: metadata.json''), temp_root)
      | Some c \<Rightarrow>
          (case pk_copy2 env of
             Some e \<Rightarrow> (Some e, temp_root)
           | None \<Rightarrow>
               (case map_of (dfiles temp_root) ''metadata.json.tmp'' of
                  Some old \<Rightarrow> (None, Dir (put_file ''metadata.json.tmp'' c (dfiles temp_root)) (subdirs temp_root))
                | None \<Rightarrow>
                    (case map_of (subdirs temp_root) ''metadata.json.tmp'' of
                       Some d \<Rightarrow>
                         (None, Dir (dfiles temp_root)
                                  (put_dir ''metadata.json.tmp''
                                     (Dir (put_file ''metadata.json'' c (dfiles d)) (subdirs d)) (subdirs temp_root)))
                     | None \<Rightarrow> (None, Dir (put_file ''metadata.json.tmp'' c (dfiles temp_root)) (subdirs temp_root))))))"

definition move_manifest :: "penv \<Rightarrow> bool \<Rightarrow> tree \<Rightarrow> error option \<times> tree" where
  \<comment> \<open>\<^verbatim>\<open>if os.path.exists(temp_metadata): shutil.move(temp_metadata, metadata_path)\<close>\<close>
  "move_manifest env in_handler temp_root =
     (if \<not> exists_in temp_root ''metadata.json.tmp'' then (None, temp_root)
      else case pk_move env in_handler of
             Some e \<Rightarrow> (Some e, temp_root)
           | None \<Rightarrow>
               (case map_of (dfiles temp_root) ''metadata.json.tmp'' of
                  Some c \<Rightarrow>
                    (case map_of (dfiles temp_root) ''metadata.json'' of
                       None \<Rightarrow>
                         (case map_of (subdirs temp_root) ''metadata.json'' of
                            Some d \<Rightarrow>
                              (None, Dir (del_name ''metadata.json.tmp'' (dfiles temp_root))
                                       (put_dir ''metadata.json''
                                          (Dir (put_file ''metadata.json.tmp'' c (dfiles d)) (subdirs d))
                                          (subdirs temp_root)))
                          | None \<Rightarrow>
                              (None, Dir (put_file ''metadata.json'' c (del_name ''metadata.json.tmp'' (dfiles temp_root)))
                                       (subdirs temp_root)))
                     | Some old \<Rightarrow>
                         (None, Dir (put_file ''metadata.json'' c (del_name ''metadata.json.tmp'' (dfiles temp_root)))
                                  (subdirs temp_root)))
                | None \<Rightarrow>
                    (case map_of (dfiles temp_root) ''metadata.json'' of
                       Some old \<Rightarrow> (Some (Err OtherError ''[Errno 17] File exists: metadata.json''), temp_root)
                     | None \<Rightarrow>
                         (case (map_of (subdirs temp_root) ''metadata.json.tmp'', map_of (subdirs temp_root) ''metadata.json'') of
                            (Some td, Some d) \<Rightarrow>
                              (None, Dir (dfiles temp_root)
                                       (put_dir ''metadata.json''
                                          (Dir (dfiles d) (subdirs d @ [(''metadata.json.tmp'', td)]))
                                          (del_name ''metadata.json.tmp'' (subdirs temp_root))))
                          | (Some td, None) \<Rightarrow>
                              (None, Dir (dfiles temp_root)
                                       (del_name ''metadata.json.tmp'' (subdirs temp_root) @ [(''metadata.json'', td)]))
                          | (None, d) \<Rightarrow> (None, temp_root)))))"

definition process_backup_files :: "penv \<Rightarrow> bool \<Rightarrow> bool \<Rightarrow> pstate \<Rightarrow> error option \<times> pstate" where
  "process_backup_files env compress encrypt s =
     (let temp_root = staged s;
          bound = exists_in temp_root ''metadata.json'';
          unbound = Err OtherError ''cannot access local variable temp_metadata'';
          attempt =
            (case (if bound then copy_manifest env temp_root else (None, temp_root)) of
               (Some e, r1) \<Rightarrow> (Some e, r1)
             | (None, r1) \<Rightarrow>
                 (case process_folders env compress encrypt
                         (map fst (dfiles r1) @ map fst (subdirs r1)) r1 of
                    (Some e, r2) \<Rightarrow> (Some e, r2)
                  | (None, r2) \<Rightarrow> if bound then move_manifest env False r2 else (Some unbound, r2)))
      in case attempt of
           (None, r3) \<Rightarrow>
             (None, s\<lparr>staged := r3, pk_logged := pk_logged s @ [(INFO, ''Backup processing completed successfully'')]\<rparr>)
         | (Some e, r3) \<Rightarrow>
             if \<not> bound then (Some unbound, s\<lparr>staged := r3\<rparr>)
             else (case move_manifest env True r3 of
                     (Some e', r4) \<Rightarrow> (Some e', s\<lparr>staged := r4\<rparr>)
                   | (None, r4) \<Rightarrow>
                       (Some (Err PlainException (''Failed to process backup files: '' @ str_of e)),
                        s\<lparr>staged := r4\<rparr>)))"

text \<open>
  A staging directory with a manifest and one folder of two files, and an environment with
  one key in which encrypting the second file raises.
\<close>

definition penv_second_file_fails :: penv where
  "penv_second_file_fails = \<lparr> pk_copy2 = None, pk_move = (\<lambda>h. None), pk_tar = (\<lambda>p. None),
     pk_tar_bytes = (\<lambda>t. ''TAR''), pk_remove = (\<lambda>p. None), pk_keys = [''F00D''],
     pk_encrypt = (\<lambda>p. if p = [''docs'', ''b.txt''] then Some (Err OtherError ''gpg: encryption failed'') else None),
     pk_cipher = (\<lambda>k c. ''GPG('' @ c @ '')'') \<rparr>"

definition staging_sample :: pstate where
  \<open>staging_sample = \<lparr> staged =
       Dir [(''metadata.json'', ''{"timestamp": "20240101_1200"}'')]
           [(''docs'', Dir [(''a.txt'', ''alpha''), (''b.txt'', ''beta'')] [])],
     pk_logged = [] \<rparr>\<close>

section \<open>The end of a run: \<open>BackupManager.run\<close>, lines 296--330\<close>

text \<open>
  The entries of the manifest that the end of a run reads. \<open>run\<close> builds the manifest
  itself (lines 97--108): the values have the types that \<open>run\<close> gives them. \<open>md_folders\<close>
  maps the name of each staged folder to its original path, in the order of insertion.
\<close>

record backup_metadata =
  md_timestamp :: string
  md_backup_name :: string
  md_folders :: "(string \<times> string) list"
  md_backup_system :: bool
  md_encrypt :: bool
  md_compress :: bool
  md_incremental :: bool

record run_result =
  rr_status :: string
  rr_backup_name :: string
  rr_timestamp :: string
  rr_folders :: "(string \<times> string) list"
  rr_total_files :: nat
  rr_total_size :: string

type_synonym callback = "progress_value \<Rightarrow> string \<Rightarrow> unit action"

definition endswith :: "string \<Rightarrow> string \<Rightarrow> bool" where
  "endswith s suffix = (length suffix \<le> length s \<and> drop (length s - length suffix) s = suffix)"

definition report_progress :: "callback option \<Rightarrow> progress_value \<Rightarrow> string \<Rightarrow> unit action" where
  \<comment> \<open>\<^verbatim>\<open>if progress_callback: progress_callback(value, message)\<close>\<close>
  "report_progress progress_callback v message =
     (case progress_callback of None \<Rightarrow> ret () | Some cb \<Rightarrow> cb v message)"

definition record_backup_time :: "env \<Rightarrow> unit action" where
  "record_backup_time env = fs env (WriteFile (path_join (autostash_dir env) ''last_backup'') (now_stamp env))"

text \<open>
  The three counters of \<open>_append_backup_history\<close> are kept as
  \<open>(total_size, file_count, changed_files)\<close>. For an archive an exception of
  \<^verbatim>\<open>os.path.getsize\<close> or \<^verbatim>\<open>os.path.getmtime\<close> leaves the method; for a single file it is caught
  and logged (both only raise \<^verbatim>\<open>OSError\<close>). \<open>walk_files\<close> are the files that \<^verbatim>\<open>os.walk\<close> finds
  below a directory.
\<close>

definition count_archive :: "env \<Rightarrow> string \<Rightarrow> nat \<times> nat \<times> nat \<Rightarrow> error + nat \<times> nat \<times> nat" where
  "count_archive env tar_path c =
     (case c of (total_size, file_count, changed_files) \<Rightarrow>
        (case getsize env tar_path of
           Inl e \<Rightarrow> Inl e
         | Inr n \<Rightarrow>
             (case modified_recently env tar_path of
                Inl e \<Rightarrow> Inl e
              | Inr recent \<Rightarrow>
                  Inr (total_size + n, file_count + 1,
                       if recent then changed_files + 1 else changed_files))))"

fun count_files :: "env \<Rightarrow> string list \<Rightarrow> nat \<times> nat \<times> nat \<Rightarrow> (nat \<times> nat \<times> nat) action" where
  "count_files env [] c = ret c"
| "count_files env (file_path # rest) (total_size, file_count, changed_files) =
     (if endswith (basename file_path) ''.tmp'' \<or> endswith (basename file_path) ''metadata.json''
      then count_files env rest (total_size, file_count, changed_files)
      else
        (case getsize env file_path of
           Inl e \<Rightarrow>
             seq (logger WARNING (''Could not access file '' @ file_path @ '': '' @ str_of e)) (\<lambda>_.
             count_files env rest (total_size, file_count, changed_files))
         | Inr file_size \<Rightarrow>
             (case modified_recently env file_path of
                Inl e \<Rightarrow>
                  seq (logger WARNING (''Could not access file '' @ file_path @ '': '' @ str_of e)) (\<lambda>_.
                  count_files env rest (total_size + file_size, file_count + 1, changed_files))
              | Inr recent \<Rightarrow>
                  count_files env rest
                    (total_size + file_size, file_count + 1,
                     if recent then changed_files + 1 else changed_files))))"

definition walk_files :: "world \<Rightarrow> string \<Rightarrow> string list" where
  "walk_files w folder_path = map fst (filter (\<lambda>(q, _). under folder_path q \<and> q \<noteq> folder_path) (files w))"

definition count_folder :: "env \<Rightarrow> string \<Rightarrow> nat \<times> nat \<times> nat \<Rightarrow> (nat \<times> nat \<times> nat) action" where
  "count_folder env folder_path c = (\<lambda>w.
     if path_exists w folder_path then
       if path_exists w (path_join folder_path ''backup.tar.gz.gpg'')
       then lift (count_archive env (path_join folder_path ''backup.tar.gz.gpg'') c) w
       else if path_exists w (path_join folder_path ''backup.tar.gz'')
       then lift (count_archive env (path_join folder_path ''backup.tar.gz'') c) w
       else count_files env (walk_files w folder_path) c w
     else ret c w)"

fun count_folders :: "env \<Rightarrow> string \<Rightarrow> (string \<times> string) list \<Rightarrow> nat \<times> nat \<times> nat
                        \<Rightarrow> (nat \<times> nat \<times> nat) action" where
  "count_folders env backup_folder_path [] c = ret c"
| "count_folders env backup_folder_path ((folder_name, original_path) # rest) c =
     seq (count_folder env (path_join backup_folder_path folder_name) c)
         (count_folders env backup_folder_path rest)"

definition backup_entry :: "env \<Rightarrow> bool \<Rightarrow> backup_metadata \<Rightarrow> nat \<times> nat \<times> nat \<Rightarrow> json" where
  "backup_entry env incremental metadata c =
     (case c of (total_size, file_count, changed_files) \<Rightarrow>
        JObj [(''timestamp'', JStr (md_timestamp metadata)),
              (''total_files'', JNum (int file_count)),
              (''changed_files'', JNum (int changed_files)),
              (''total_size'', JStr (format_size env total_size)),
              (''type'', JStr (if \<not> incremental then ''Full'' else ''Incremental'')),
              (''folders'', JObj (map (\<lambda>(k, v). (k, JStr v)) (md_folders metadata))),
              (''backup_name'', JStr (md_backup_name metadata)),
              (''compressed'', JBool (md_compress metadata)),
              (''encrypted'', JBool (md_encrypt metadata))])"

definition append_backup_history :: "env \<Rightarrow> backup_metadata \<Rightarrow> unit action" where
  "append_backup_history env metadata =
     try_except
       (seq (fs env (Makedirs (autostash_dir env))) (\<lambda>_.
        seq (count_folders env (path_join (repo_path env) (md_backup_name metadata))
               (md_folders metadata) (0, 0, 0)) (\<lambda>c.
        (\<lambda>w. let line = json_dumps env (backup_entry env (self_incremental w) metadata c) @ [CHR 0x0A]
              in seq (fs env (AppendFile (local_history_path env) line)) (\<lambda>_.
                 seq (fs env (AppendFile (repo_history_path env) line)) (\<lambda>_.
                 seq (git env (Add (repo_history_path env))) (\<lambda>_.
                 seq (git env (Commit (''Update backup history: '' @ md_timestamp metadata))) (\<lambda>_.
                 seq (git env Push) (\<lambda>_.
                 logger INFO (''Backup history updated: '' @ decimal (fst (snd c)) @ '' files, ''
                              @ format_size env (fst c))))))) w))))
       (\<lambda>e. seq (logger ERROR (''Failed to update backup history: '' @ str_of e)) (\<lambda>_. raise e))"

definition update_history :: "env \<Rightarrow> backup_metadata \<Rightarrow> unit action" where
  \<comment> \<open>lines 302--308: the error is logged, \<^verbatim>\<open># Don't raise here as the backup itself was successful\<close>\<close>
  "update_history env backup_metadata =
     try_except
       (seq (record_backup_time env) (\<lambda>_. append_backup_history env backup_metadata))
       (\<lambda>e. logger ERROR (''Failed to update backup history: '' @ str_of e))"

definition backup_failed :: "env \<Rightarrow> string option \<Rightarrow> error \<Rightarrow> 'a action" where
  \<comment> \<open>the handler of \<open>run\<close> (lines 322--330); \<open>backup_folder_path\<close> is \<open>None\<close> when the local
      variable has not been assigned\<close>
  "backup_failed env backup_folder_path e =
     seq (logger ERROR (''Backup failed: '' @ str_of e)) (\<lambda>_.
     seq (\<lambda>w. case backup_folder_path of
                 None \<Rightarrow> (Inr (), w)
               | Some p \<Rightarrow>
                   if path_exists w p
                   then try_except (fs env (Rmtree p)) (\<lambda>e'. ret ()) w
                   else (Inr (), w)) (\<lambda>_.
     raise e))"

text \<open>
  \<open>run\<close> from the call of \<open>_git_commit_push\<close> (line 296) to its end, as a function of the
  local variables at that point.
\<close>

definition run_from_commit :: "env \<Rightarrow> callback option \<Rightarrow> string \<Rightarrow> backup_metadata \<Rightarrow> nat \<Rightarrow> nat
                                 \<Rightarrow> run_result action" where
  "run_from_commit env progress_callback backup_folder_path backup_metadata file_count total_size =
     try_except
       (seq (try_except (git_commit_push env)
               (\<lambda>e. raise (Err PlainException (''Failed to commit and push changes: '' @ str_of e)))) (\<lambda>_.
        seq (update_history env backup_metadata) (\<lambda>_.
        seq (report_progress progress_callback (Percent 100) ''Backup complete'') (\<lambda>_.
        ret \<lparr> rr_status = ''success'', rr_backup_name = md_backup_name backup_metadata,
              rr_timestamp = md_timestamp backup_metadata, rr_folders = md_folders backup_metadata,
              rr_total_files = file_count, rr_total_size = format_size env total_size \<rparr>))))
       (backup_failed env (Some backup_folder_path))"

text \<open>
  A run whose snapshot is pushed but whose home directory has no \<open>.autostash\<close> directory:
  the marker cannot be written. The callback records what it is told.
\<close>

definition env_no_autostash_dir :: env where
  "env_no_autostash_dir = env_always_ok \<lparr> fs_outcome :=
     (\<lambda>c. if c = WriteFile ''/home/u/.autostash/last_backup'' ''2024-06-01 10:00:00''
           then Some (Err OtherError ''[Errno 2] No such file or directory: /home/u/.autostash/last_backup'')
           else None) \<rparr>"

definition recording_callback :: callback where
  "recording_callback v message = (\<lambda>w. (Inr (), w\<lparr>progress := progress w @ [(v, message)]\<rparr>))"

definition metadata_docs :: backup_metadata where
  "metadata_docs = \<lparr> md_timestamp = ''20240601_1000'', md_backup_name = ''Backup_20240601_1000_docs'',
     md_folders = [(''docs'', ''/home/u/docs'')], md_backup_system = False, md_encrypt = False,
     md_compress = False, md_incremental = True \<rparr>"

definition world_staged :: world where
  "world_staged = world_empty \<lparr>
     paths := [''/home/u/.autostash_repo'', ''/home/u/.autostash_repo/Backup_20240601_1000_docs'',
               ''/home/u/.autostash_repo/Backup_20240601_1000_docs/docs'',
               ''/home/u/.autostash_repo/Backup_20240601_1000_docs/docs/docs''],
     files := [(''/home/u/.autostash_repo/backup_history'', ''''),
               (''/home/u/.autostash_repo/Backup_20240601_1000_docs/docs/docs/a.txt'', ''alpha'')] \<rparr>"

section \<open>Theorems\<close>

subsection \<open>Basic facts about the actions\<close>

lemma git_unfold:
  "git env c w = (case git_refused c w of
          Some e \<Rightarrow> (Inl e, w\<lparr>git_log := git_log w @ [c]\<rparr>)
        | None \<Rightarrow>
     (case git_outcome env (length (git_log w)) c of
          Some e \<Rightarrow> (Inl e, w\<lparr>git_log := git_log w @ [c]\<rparr>)
        | None \<Rightarrow> (Inr (), git_effect env (length (git_log w)) c (w\<lparr>git_log := git_log w @ [c]\<rparr>))))"
  by (simp add: git_def Let_def)

lemma git_log_git_effect [simp]: "git_log (git_effect env n c w) = git_log w"
  by (cases c) (simp_all split: option.splits)

subsection \<open>Repository sync\<close>

text \<open>
  When the first push raises \<open>GitCommandError\<close> (the push fails outright), the engine pulls
  exactly once; if that pull succeeds it pushes once more, and if the pull raises, the
  push is not repeated. No further command is attempted.
\<close>

lemma git_commit_push_when_push_raises:
  assumes "repo_dirty env"
    and "git_outcome env (length (git_log w)) AddAll = None"
    and "git_outcome env (length (git_log w) + 1) (Commit ''AutoStash Backup'') = None"
    and "git_outcome env (length (git_log w) + 2) RemotePush = Some e"
    and "err_class e = GitCommandError"
  shows "(case git_outcome env (length (git_log w) + 3) RemotePull of
            Some e1 \<Rightarrow>
              git_log (snd (git_commit_push env w))
                = git_log w @ [AddAll, Commit ''AutoStash Backup'', RemotePush, RemotePull]
              \<and> fst (git_commit_push env w) = Inl (Err PlainException
                    ((if err_class e1 = GitCommandError then ''Git error: ''
                      else ''Failed to commit and push changes: '') @ str_of e1))
          | None \<Rightarrow>
              git_log (snd (git_commit_push env w))
                = git_log w @ [AddAll, Commit ''AutoStash Backup'', RemotePush, RemotePull, RemotePush]
              \<and> (case git_outcome env (length (git_log w) + 4) RemotePush of
                    None \<Rightarrow> fst (git_commit_push env w) = Inr ()
                  | Some e2 \<Rightarrow> fst (git_commit_push env w) = Inl (Err PlainException
                      ((if err_class e2 = GitCommandError then ''Git error: ''
                        else ''Failed to commit and push changes: '') @ str_of e2))))"
  using assms
  by (simp add: git_commit_push_def remote_push_def seq_def try_except_def git_unfold raise_def ret_def
      eval_nat_numeral split: option.splits)

text \<open>
  Whenever the push returns, rejected or not, the engine is done: it neither pulls nor
  pushes again, and it reports no error.
\<close>

lemma git_commit_push_when_push_returns:
  assumes "repo_dirty env"
    and "git_outcome env (length (git_log w)) AddAll = None"
    and "git_outcome env (length (git_log w) + 1) (Commit ''AutoStash Backup'') = None"
    and "git_outcome env (length (git_log w) + 2) RemotePush = None"
  shows "fst (git_commit_push env w) = Inr ()
     \<and> git_log (snd (git_commit_push env w))
         = git_log w @ [AddAll, Commit ''AutoStash Backup'', RemotePush]"
  using assms
  by (simp add: git_commit_push_def remote_push_def seq_def try_except_def git_unfold raise_def ret_def
      eval_nat_numeral split: option.splits)

text \<open>
  C5: with a dirty working tree, add and commit succeeding and the remote rejecting the
  pushed ref, \<^verbatim>\<open>remotes.origin.push()\<close> returns its list of flagged results and raises
  nothing. The engine does not look at the list: it attempts add, commit and one push,
  never pulls, never pushes again and returns normally, where the claim has it pull once,
  retry once and raise if the retry fails too.
\<close>

theorem C5_rejected_push_is_ignored:
  "repo_dirty env_push_rejected
   \<and> git_outcome env_push_rejected 2 RemotePush = None
   \<and> push_rejected env_push_rejected 2
   \<and> fst (git_commit_push env_push_rejected world_empty) = Inr ()
   \<and> git_log (snd (git_commit_push env_push_rejected world_empty))
       = [AddAll, Commit ''AutoStash Backup'', RemotePush]"
  by (simp add: git_commit_push_def remote_push_def env_push_rejected_def env_always_ok_def
      world_empty_def seq_def try_except_def git_unfold raise_def ret_def)

subsection \<open>Snapshot naming\<close>

text \<open>
  C9, as stated: the snapshot name is \<open>Backup_\<close>, the timestamp, an underscore and the
  basenames of all source folders joined by underscores. With four source folders the
  code keeps three basenames and appends \<open>_etc\<close>, so the statement fails.
\<close>

theorem C9_all_basenames_counterexample:
  "backup_folder_name_of ''20240101_1200'' [''/home/u/a'', ''/home/u/b'', ''/home/u/c'', ''/home/u/d'']
     \<noteq> ''Backup_'' @ ''20240101_1200'' @ ''_''
         @ py_join ''_'' (map basename [''/home/u/a'', ''/home/u/b'', ''/home/u/c'', ''/home/u/d''])"
  by (simp add: backup_folder_name_of_def backup_name_of_def basename_def)

text \<open>
  C9, amended: with at most three source folders the name is \<open>Backup_\<close>, the timestamp,
  an underscore and all basenames joined by underscores; with more than three it is
  \<open>Backup_\<close>, the timestamp, an underscore, the first three basenames joined by
  underscores, and the suffix \<open>_etc\<close>.
\<close>

theorem C9_snapshot_name:
  "(length folders \<le> 3 \<longrightarrow>
      backup_folder_name_of timestamp folders
        = ''Backup_'' @ timestamp @ ''_'' @ py_join ''_'' (map basename folders))
   \<and> (3 < length folders \<longrightarrow>
      backup_folder_name_of timestamp folders
        = ''Backup_'' @ timestamp @ ''_'' @ py_join ''_'' (map basename (take 3 folders)) @ ''_etc'')"
  by (simp add: backup_folder_name_of_def backup_name_of_def take_map)

theorem C9_snapshot_name_witness:
  "backup_folder_name_of ''20240101_1200'' [''/home/u/docs'', ''/srv/www'']
     = ''Backup_20240101_1200_docs_www''
   \<and> backup_folder_name_of ''20240101_1200'' [''/a'', ''/b'', ''/c'', ''/d'', ''/e'']
     = ''Backup_20240101_1200_a_b_c_etc''"
  using C9_snapshot_name [of "[''/home/u/docs'', ''/srv/www'']" "''20240101_1200''"]
        C9_snapshot_name [of "[''/a'', ''/b'', ''/c'', ''/d'', ''/e'']" "''20240101_1200''"]
  by (simp add: basename_def)

subsection \<open>History ledger\<close>

lemma universal_newlines_no_cr: "CHR 0x0D \<notin> set (universal_newlines s)"
  by (induction s rule: universal_newlines.induct) auto

lemma universal_newlines_id: "CHR 0x0D \<notin> set s \<Longrightarrow> universal_newlines s = s"
  by (induction s rule: universal_newlines.induct) auto

lemma is_space_lf [simp]: "is_space (CHR 0x0A)"
  by (simp add: is_space_def)

lemma py_strip_snoc_space:
  assumes that: "is_space c"
  shows "py_strip (s @ [c]) = py_strip s"
proof (cases "\<forall>x\<in>set s. is_space x")
  case True
  then have a: "dropWhile is_space s = []" by simp
  from True that have b: "dropWhile is_space (s @ [c]) = []" by simp
  show ?thesis unfolding py_strip_def a b by simp
next
  case False
  then show ?thesis using that by (auto simp add: py_strip_def dropWhile_append)
qed

lemma set_py_strip: "set (py_strip s) \<subseteq> set s"
proof -
  have "set (py_strip s) \<subseteq> set (dropWhile is_space s)"
    unfolding py_strip_def using set_dropWhileD by fastforce
  also have "\<dots> \<subseteq> set s" using set_dropWhileD by fastforce
  finally show ?thesis .
qed

lemma py_strip_fixed_iff:
  "py_strip s = s \<longleftrightarrow> (s = [] \<or> (\<not> is_space (hd s) \<and> \<not> is_space (last s)))"
proof (cases "s = []")
  case True
  then show ?thesis by (simp add: py_strip_def)
next
  case False
  show ?thesis
  proof
    assume eq: "py_strip s = s"
    have "\<not> is_space (hd s)"
    proof
      assume sp: "is_space (hd s)"
      have "length (dropWhile is_space s) < length s"
        using False sp by (cases s) (auto simp: le_imp_less_Suc length_dropWhile_le)
      moreover have "length (py_strip s) \<le> length (dropWhile is_space s)"
        unfolding py_strip_def by (metis length_dropWhile_le length_rev)
      ultimately show False using eq by simp
    qed
    moreover have "\<not> is_space (last s)"
    proof
      assume sp: "is_space (last s)"
      have d: "dropWhile is_space s = s"
        using \<open>\<not> is_space (hd s)\<close> False by (cases s) auto
      have "length (dropWhile is_space (rev s)) < length (rev s)"
        using False sp by (cases "rev s") (auto simp: le_imp_less_Suc length_dropWhile_le last_rev hd_rev)
      then show False using eq d by (simp add: py_strip_def) (metis length_rev less_irrefl)
    qed
    ultimately show "s = [] \<or> (\<not> is_space (hd s) \<and> \<not> is_space (last s))" by simp
  next
    assume "s = [] \<or> (\<not> is_space (hd s) \<and> \<not> is_space (last s))"
    with False have h: "\<not> is_space (hd s)" and l: "\<not> is_space (last s)" by auto
    have d: "dropWhile is_space s = s" using h False by (cases s) auto
    have "dropWhile is_space (rev s) = rev s"
      using l False by (cases "rev s") (auto simp: hd_rev)
    then show "py_strip s = s" by (simp add: py_strip_def d)
  qed
qed

lemma py_strip_idem: "py_strip (py_strip s) = py_strip s"
proof (cases "py_strip s = []")
  case True
  have "py_strip [] = []" by (simp add: py_strip_def)
  with True show ?thesis by simp
next
  case False
  let ?t = "dropWhile is_space s"
  let ?u = "dropWhile is_space (rev ?t)"
  have u: "py_strip s = rev ?u" by (simp add: py_strip_def)
  from False u have une: "?u \<noteq> []" by simp
  have "\<not> is_space (hd ?u)" using une by (metis hd_dropWhile)
  then have l: "\<not> is_space (last (py_strip s))" using une u by (simp add: last_rev)
  have tne: "?t \<noteq> []"
  proof
    assume "?t = []"
    then have "?u = []" by (metis dropWhile.simps(1) rev.simps(1))
    with une show False by blast
  qed
  have ht: "\<not> is_space (hd ?t)" using tne by (metis hd_dropWhile)
  have "\<exists>zs. rev ?t = zs @ ?u"
    by (metis takeWhile_dropWhile_id)
  then obtain zs where "rev ?t = zs @ ?u" by blast
  then have "?t = rev ?u @ rev zs" by (metis rev_append rev_rev_ident)
  then have "hd ?t = hd (rev ?u)" using une by (metis hd_append2 rev_is_Nil_conv)
  then have "\<not> is_space (hd (py_strip s))" using ht u by simp
  with l show ?thesis using py_strip_fixed_iff by blast
qed

lemma lines_from_append:
  "CHR 0x0A \<notin> set x \<Longrightarrow>
     lines_from cur (x @ CHR 0x0A # rest) = (cur @ x @ [CHR 0x0A]) # lines_from [] rest"
  by (induction x arbitrary: cur) auto

lemma lines_from_join:
  "\<forall>x\<in>set xs. CHR 0x0A \<notin> set x \<Longrightarrow> xs \<noteq> [] \<Longrightarrow>
     lines_from [] (py_join [CHR 0x0A] xs @ [CHR 0x0A]) = map (\<lambda>x. x @ [CHR 0x0A]) xs"
proof (induction "[CHR 0x0A]" xs rule: py_join.induct)
  case 1
  then show ?case by simp
next
  case (2 x)
  then show ?case using lines_from_append [of x "[]" "[]"] by simp
next
  case (3 x y ys)
  then show ?case using lines_from_append [of x "[]" "py_join [CHR 0x0A] (y # ys) @ [CHR 0x0A]"] by simp
qed

lemma stripped_lines_join:
  assumes "\<forall>x\<in>set xs. clean_entry x"
  shows "stripped_lines (py_join [CHR 0x0A] xs @ [CHR 0x0A]) = xs"
proof (cases "xs = []")
  case True
  then show ?thesis by (simp add: stripped_lines_def file_lines_def py_strip_def)
next
  case False
  have "file_lines (py_join [CHR 0x0A] xs @ [CHR 0x0A]) = map (\<lambda>x. x @ [CHR 0x0A]) xs"
    unfolding file_lines_def using assms False by (intro lines_from_join) (auto simp: clean_entry_def)
  moreover have "map py_strip (map (\<lambda>x. x @ [CHR 0x0A]) xs) = xs"
    using assms by (induction xs) (auto simp: clean_entry_def py_strip_snoc_space)
  moreover have "filter (\<lambda>l. l \<noteq> []) xs = xs"
    using assms by (induction xs) (auto simp: clean_entry_def)
  ultimately show ?thesis by (simp add: stripped_lines_def)
qed

lemma lines_from_shape:
  "l \<in> set (lines_from cur s) \<Longrightarrow> CHR 0x0A \<notin> set cur \<Longrightarrow>
     \<exists>body. CHR 0x0A \<notin> set body \<and> set body \<subseteq> set cur \<union> set s \<and> (l = body \<or> l = body @ [CHR 0x0A])"
proof (induction s arbitrary: cur)
  case Nil
  then show ?case by (auto split: if_splits)
next
  case (Cons c cs)
  show ?case
  proof (cases "c = CHR 0x0A")
    case True
    with Cons.prems have "l = cur @ [c] \<or> l \<in> set (lines_from [] cs)" by auto
    then show ?thesis
    proof
      assume "l = cur @ [c]"
      with True Cons.prems(2) show ?thesis by (intro exI [of _ cur]) auto
    next
      assume "l \<in> set (lines_from [] cs)"
      from Cons.IH [OF this] show ?thesis by auto
    qed
  next
    case False
    with Cons.prems have "l \<in> set (lines_from (cur @ [c]) cs)" by auto
    moreover have "CHR 0x0A \<notin> set (cur @ [c])" using False Cons.prems(2) by auto
    ultimately show ?thesis using Cons.IH [of "cur @ [c]"] by auto
  qed
qed

lemma stripped_lines_clean:
  assumes "l \<in> set (stripped_lines t)" and "CHR 0x0D \<notin> set t"
  shows "clean_entry l"
proof -
  from assms(1) obtain raw where raw: "raw \<in> set (lines_from [] t)" and l: "l = py_strip raw" and ne: "l \<noteq> []"
    by (auto simp: stripped_lines_def file_lines_def)
  from lines_from_shape [OF raw] obtain body where
    b: "CHR 0x0A \<notin> set body" "set body \<subseteq> set t" "raw = body \<or> raw = body @ [CHR 0x0A]"
    by auto
  have "py_strip raw = py_strip body" using b(3) by (auto simp: py_strip_snoc_space)
  then have lb: "l = py_strip body" using l by simp
  have "set l \<subseteq> set body" using lb set_py_strip by simp
  then have "CHR 0x0A \<notin> set l" "CHR 0x0D \<notin> set l" using b assms(2) by auto
  moreover have "py_strip l = l" using lb py_strip_idem by simp
  ultimately show ?thesis using ne by (simp add: clean_entry_def)
qed

lemma py_eq_refl: "truthy t \<Longrightarrow> hashable t \<Longrightarrow> py_eq t t"
  by (cases t) (auto simp: py_eq_def)

lemma py_eq_sym: "py_eq a b = py_eq b a"
  by (auto simp: py_eq_def split: option.splits)

lemma entry_ts_SomeD:
  "entry_ts loads e = Some t \<Longrightarrow>
     \<exists>data. loads e = Inr data \<and> py_get data ''timestamp'' = Inr t \<and> truthy t \<and> hashable t"
  by (auto simp: entry_ts_def split: option.splits sum.splits if_splits)

lemma entry_ts_self_eq: "entry_ts loads e = Some t \<Longrightarrow> py_eq t t"
  by (auto dest!: entry_ts_SomeD intro: py_eq_refl)

lemma add_entries_inv:
  "add_entries loads xs (m, s) = Inr (m', s') \<Longrightarrow>
   s = map (\<lambda>e. the (entry_ts loads e)) m \<Longrightarrow> merged_inv loads m \<Longrightarrow>
     s' = map (\<lambda>e. the (entry_ts loads e)) m' \<and> merged_inv loads m' \<and> set m' \<subseteq> set m \<union> set xs"
proof (induction xs arbitrary: m s)
  case Nil
  then show ?case by auto
next
  case (Cons e rest)
  show ?case
  proof (cases "entry_ts loads e")
    case None
    then have "add_entries loads (e # rest) (m, s) = add_entries loads rest (m, s)
               \<or> (\<exists>err. add_entries loads (e # rest) (m, s) = Inl err)"
      by (auto simp: entry_ts_def split: option.splits sum.splits if_splits)
    with Cons.prems(1) have "add_entries loads rest (m, s) = Inr (m', s')" by auto
    from Cons.IH [OF this Cons.prems(2,3)] show ?thesis by auto
  next
    case (Some t)
    from entry_ts_SomeD [OF Some] obtain data where
      d: "loads e = Inr data" "py_get data ''timestamp'' = Inr t" "truthy t" "hashable t" by blast
    show ?thesis
    proof (cases "list_ex (py_eq t) s")
      case True
      with d Cons.prems(1) have "add_entries loads rest (m, s) = Inr (m', s')" by simp
      from Cons.IH [OF this Cons.prems(2,3)] show ?thesis by auto
    next
      case False
      with d Cons.prems(1) have step: "add_entries loads rest (m @ [e], s @ [t]) = Inr (m', s')" by simp
      have notin: "\<forall>x\<in>set m. \<not> py_eq t (the (entry_ts loads x))"
        using False Cons.prems(2) by (auto simp: list_ex_iff)
      have "e \<notin> set m"
      proof
        assume "e \<in> set m"
        with notin have "\<not> py_eq t (the (entry_ts loads e))" by blast
        with Some entry_ts_self_eq [OF Some] show False by simp
      qed
      then have inv': "merged_inv loads (m @ [e])"
        using Cons.prems(3) notin Some by (auto simp: merged_inv_def py_eq_sym)
      have s': "s @ [t] = map (\<lambda>e. the (entry_ts loads e)) (m @ [e])"
        using Cons.prems(2) Some by simp
      from Cons.IH [OF step s' inv'] show ?thesis by auto
    qed
  qed
qed

lemma add_entries_fresh:
  "merged_inv loads (m0 @ xs) \<Longrightarrow> s0 = map (\<lambda>e. the (entry_ts loads e)) m0 \<Longrightarrow>
     add_entries loads xs (m0, s0) = Inr (m0 @ xs, s0 @ map (\<lambda>e. the (entry_ts loads e)) xs)"
proof (induction xs arbitrary: m0 s0)
  case Nil
  then show ?case by simp
next
  case (Cons e rest)
  from Cons.prems(1) obtain t where t: "entry_ts loads e = Some t"
    by (auto simp: merged_inv_def)
  from entry_ts_SomeD [OF t] obtain data where
    d: "loads e = Inr data" "py_get data ''timestamp'' = Inr t" "truthy t" "hashable t" by blast
  have "\<forall>x\<in>set m0. \<not> py_eq t (the (entry_ts loads x))"
    using Cons.prems(1) t by (auto simp: merged_inv_def)
  then have unseen: "\<not> list_ex (py_eq t) s0"
    using Cons.prems(2) by (auto simp: list_ex_iff)
  have "add_entries loads (e # rest) (m0, s0) = add_entries loads rest (m0 @ [e], s0 @ [t])"
    using d unseen by simp
  also have "\<dots> = Inr ((m0 @ [e]) @ rest, (s0 @ [t]) @ map (\<lambda>e. the (entry_ts loads e)) rest)"
    using Cons.prems t by (intro Cons.IH) auto
  finally show ?case using t by simp
qed

lemma add_entries_all_seen:
  "\<forall>e\<in>set xs. \<exists>t. entry_ts loads e = Some t \<and> list_ex (py_eq t) s \<Longrightarrow>
     add_entries loads xs (m, s) = Inr (m, s)"
proof (induction xs)
  case Nil
  then show ?case by simp
next
  case (Cons e rest)
  then obtain t where t: "entry_ts loads e = Some t" "list_ex (py_eq t) s" by auto
  from entry_ts_SomeD [OF t(1)] obtain data where
    d: "loads e = Inr data" "py_get data ''timestamp'' = Inr t" "truthy t" "hashable t" by blast
  with t Cons show ?case by simp
qed

lemma sort_keys_good:
  "\<forall>e\<in>set xs. entry_ts loads e \<noteq> None \<Longrightarrow>
     sort_keys loads xs = Inr (map (\<lambda>e. the (entry_ts loads e)) xs)"
proof (induction xs)
  case Nil
  then show ?case by simp
next
  case (Cons e rest)
  then obtain t where t: "entry_ts loads e = Some t" by auto
  from entry_ts_SomeD [OF t] obtain data where
    d: "loads e = Inr data" "py_get data ''timestamp'' = Inr t" "truthy t" "hashable t" by blast
  have "py_item data ''timestamp'' = Inr t"
    using d(2,3) by (cases data) (auto split: option.splits)
  with d t Cons show ?case by simp
qed

lemma insort_key_fst_map:
  "insort_key fst (f a, a) (map (\<lambda>x. (f x, x)) zs) = map (\<lambda>x. (f x, x)) (insort_key f a zs)"
  by (induction zs) auto

lemma sort_key_fst_map:
  "sort_key fst (map (\<lambda>x. (f x, x)) ys) = map (\<lambda>x. (f x, x)) (sort_key f ys)"
  by (induction ys) (auto simp: insort_key_fst_map)

lemma zip_map_self: "zip (map f xs) xs = map (\<lambda>x. (f x, x)) xs"
  by (induction xs) auto

lemma sort_reverse_eq: "sort_reverse (map f xs) xs = rev (sort_key f (rev xs))"
  by (simp add: sort_reverse_def zip_map_self rev_map sort_key_fst_map comp_def)

lemma sort_reverse_idem:
  "rev (sort_key f (rev (rev (sort_key f (rev xs))))) = rev (sort_key f (rev xs))"
  by (simp add: sort_key_id_if_sorted)


lemma sort_by_timestamp_idem:
  assumes inv: "merged_inv loads m0" and srt: "sort_by_timestamp loads m0 = Inr m"
  shows "sort_by_timestamp loads m = Inr m \<and> set m = set m0 \<and> distinct m"
proof -
  let ?K = "\<lambda>e. the (entry_ts loads e)"
  have good0: "\<forall>e\<in>set m0. entry_ts loads e \<noteq> None" and d0: "distinct m0"
    using inv by (auto simp: merged_inv_def)
  have keys0: "sort_keys loads m0 = Inr (map ?K m0)" using good0 by (rule sort_keys_good)
  show ?thesis
  proof (cases "length m0 \<le> 1")
    case True
    with srt keys0 have "m = m0" by (simp add: sort_by_timestamp_def)
    with srt d0 show ?thesis by simp
  next
    case long: False
    show ?thesis
    proof (cases "list_all (\<lambda>k. str_val k \<noteq> None) (map ?K m0)")
      case True
      let ?f = "\<lambda>e. the (str_val (?K e))"
      have "m = sort_reverse (map ?f m0) m0"
        using srt keys0 long True by (simp add: sort_by_timestamp_def comp_def)
      then have m: "m = rev (sort_key ?f (rev m0))" by (simp add: sort_reverse_eq)
      then have sm: "set m = set m0" and lm: "length m = length m0" and dm: "distinct m"
        using d0 by auto
      have keys: "sort_keys loads m = Inr (map ?K m)"
        using good0 sm by (intro sort_keys_good) simp
      have all: "list_all (\<lambda>k. str_val k \<noteq> None) (map ?K m)"
        using True sm by (simp add: list_all_iff)
      have "sort_by_timestamp loads m = Inr (sort_reverse (map ?f m) m)"
        using keys long lm all by (simp add: sort_by_timestamp_def comp_def)
      also have "sort_reverse (map ?f m) m = m"
        unfolding sort_reverse_eq by (subst (1 2) m) (rule sort_reverse_idem)
      finally show ?thesis using sm dm by simp
    next
      case nostr: False
      let ?f = "\<lambda>e. the (num_of (?K e))"
      have allnum: "list_all (\<lambda>k. num_of k \<noteq> None) (map ?K m0)"
        using srt keys0 long nostr by (simp add: sort_by_timestamp_def split: if_splits)
      have "m = sort_reverse (map ?f m0) m0"
        using srt keys0 long nostr allnum by (simp add: sort_by_timestamp_def comp_def)
      then have m: "m = rev (sort_key ?f (rev m0))" by (simp add: sort_reverse_eq)
      then have sm: "set m = set m0" and lm: "length m = length m0" and dm: "distinct m"
        using d0 by auto
      have keys: "sort_keys loads m = Inr (map ?K m)"
        using good0 sm by (intro sort_keys_good) simp
      have all: "list_all (\<lambda>k. num_of k \<noteq> None) (map ?K m)"
        using allnum sm by (simp add: list_all_iff)
      have nostr': "\<not> list_all (\<lambda>k. str_val k \<noteq> None) (map ?K m)"
        using nostr sm by (simp add: list_all_iff)
      have "sort_by_timestamp loads m = Inr (sort_reverse (map ?f m) m)"
        using keys long lm all nostr' by (simp add: sort_by_timestamp_def comp_def)
      also have "sort_reverse (map ?f m) m = m"
        unfolding sort_reverse_eq by (subst (1 2) m) (rule sort_reverse_idem)
      finally show ?thesis using sm dm by simp
    qed
  qed
qed

lemma merged_inv_perm: "merged_inv loads m0 \<Longrightarrow> set m = set m0 \<Longrightarrow> distinct m \<Longrightarrow> merged_inv loads m"
  by (simp add: merged_inv_def)

lemma merge_entries_idem:
  assumes "merge_entries loads repo_entries local_entries = Inr m"
  shows "merge_entries loads m m = Inr m \<and> set m \<subseteq> set repo_entries \<union> set local_entries"
proof -
  let ?K = "\<lambda>e. the (entry_ts loads e)"
  from assms obtain m1 s1 m0 s0 where
    a1: "add_entries loads repo_entries ([], []) = Inr (m1, s1)" and
    a2: "add_entries loads local_entries (m1, s1) = Inr (m0, s0)" and
    srt: "sort_by_timestamp loads m0 = Inr m"
    by (auto simp: merge_entries_def split: sum.splits prod.splits)
  have i0: "merged_inv loads []" by (simp add: merged_inv_def)
  from add_entries_inv [OF a1 _ i0] have
    s1: "s1 = map ?K m1" and i1: "merged_inv loads m1" and sub1: "set m1 \<subseteq> set repo_entries" by auto
  from add_entries_inv [OF a2 s1 i1] have
    i2: "merged_inv loads m0" and sub0: "set m0 \<subseteq> set m1 \<union> set local_entries" by auto
  from sort_by_timestamp_idem [OF i2 srt] have
    again: "sort_by_timestamp loads m = Inr m" and sm: "set m = set m0" and dm: "distinct m" by auto
  have im: "merged_inv loads m" using i2 sm dm by (rule merged_inv_perm)
  have first: "add_entries loads m ([], []) = Inr (m, map ?K m)"
    using add_entries_fresh [of loads "[]" m "[]"] im by simp
  have "\<forall>e\<in>set m. \<exists>t. entry_ts loads e = Some t \<and> list_ex (py_eq t) (map ?K m)"
  proof
    fix e assume e: "e \<in> set m"
    with im obtain t where t: "entry_ts loads e = Some t" by (auto simp: merged_inv_def)
    from entry_ts_self_eq [OF t] e t have "list_ex (py_eq t) (map ?K m)"
      by (force simp: list_ex_iff)
    with t show "\<exists>t. entry_ts loads e = Some t \<and> list_ex (py_eq t) (map ?K m)" by blast
  qed
  then have second: "add_entries loads m (m, map ?K m) = Inr (m, map ?K m)"
    by (rule add_entries_all_seen)
  have "merge_entries loads m m = Inr m"
    by (simp add: merge_entries_def first second again)
  moreover have "set m \<subseteq> set repo_entries \<union> set local_entries"
    using sm sub0 sub1 by auto
  ultimately show ?thesis by simp
qed

lemma sync_unfold:
  "sync_backup_history env w =
     (if \<not> path_exists w (repo_history_path env) then (Inr 0, w)
      else case open_read env (files w) (repo_history_path env) of
             Inl e \<Rightarrow> sync_failed e w
           | Inr rt \<Rightarrow>
      (case local_text env w of
             Inl e \<Rightarrow> sync_failed e w
           | Inr lt \<Rightarrow>
      (case merge_entries (json_loads env) (stripped_lines rt) (stripped_lines lt) of
             Inl e \<Rightarrow> sync_failed e w
           | Inr m \<Rightarrow>
               if rt = new_content_of m
               then (Inr (length m), w\<lparr>logged := logged w @ [(INFO, ''No changes to sync in backup history'')]\<rparr>)
               else (case write_merged env m w of
                       (Inl e, w') \<Rightarrow> sync_failed e w'
                     | (Inr u, w') \<Rightarrow> (Inr (length m), w')))))"
proof -
  note defs = sync_backup_history_def seq_def try_except_def read_text_def lift_def logger_def
        ret_def raise_def local_text_def new_content_of_def Let_def write_merged_def sync_failed_def
  show ?thesis
  proof (cases "path_exists w (repo_history_path env)")
    case False
    then show ?thesis by (simp add: defs)
  next
    case ex: True
    show ?thesis
    proof (cases "open_read env (files w) (repo_history_path env)")
      case (Inl e)
      with ex show ?thesis by (simp add: defs)
    next
      case rt: (Inr rt)
      show ?thesis
      proof (cases "local_text env w")
        case (Inl e)
        with ex rt show ?thesis by (simp add: defs split: if_splits)
      next
        case lt: (Inr lt)
        show ?thesis
        proof (cases "merge_entries (json_loads env) (stripped_lines rt) (stripped_lines lt)")
          case (Inl e)
          with ex rt lt show ?thesis by (simp add: defs split: if_splits)
        next
          case m: (Inr m)
          show ?thesis
          proof (cases "rt = new_content_of m")
            case True
            with ex rt lt m show ?thesis by (simp add: defs split: if_splits)
          next
            case False
            with ex rt lt m show ?thesis
              by (simp add: defs split: if_splits sum.splits prod.splits)
          qed
        qed
      qed
    qed
  qed
qed

lemma fs_unfold:
  "fs env c w = (case fs_outcome env c of
          Some e \<Rightarrow> (Inl e, w\<lparr>fs_log := fs_log w @ [c]\<rparr>)
        | None \<Rightarrow> (Inr (), fs_effect c (w\<lparr>fs_log := fs_log w @ [c]\<rparr>)))"
  by (simp add: fs_def Let_def)

lemma write_merged_paths: "paths (snd (write_merged env m w)) = paths w"
  by (simp add: write_merged_def seq_def fs_unfold git_unfold logger_def
      split: option.splits)

lemma write_merged_files:
  "fst (write_merged env m w) = Inr u \<Longrightarrow>
     files (snd (write_merged env m w))
       = put_file (local_history_path env) (new_content_of m)
           (put_file (repo_history_path env) (new_content_of m) (files w))"
  by (simp add: write_merged_def seq_def fs_unfold git_unfold logger_def
      split: option.splits)

lemma sync_failed_simps [simp]:
  "fst (sync_failed e w) = Inl e"
  "files (snd (sync_failed e w)) = files w"
  "paths (snd (sync_failed e w)) = paths w"
  "fs_log (snd (sync_failed e w)) = fs_log w"
  "git_log (snd (sync_failed e w)) = git_log w"
  by (simp_all add: sync_failed_def)

lemma sync_frame:
  "(files (snd (sync_backup_history env w)) = files w
      \<and> paths (snd (sync_backup_history env w)) = paths w
      \<and> fs_log (snd (sync_backup_history env w)) = fs_log w
      \<and> git_log (snd (sync_backup_history env w)) = git_log w)
   \<or> (\<exists>rt lt m. path_exists w (repo_history_path env)
         \<and> open_read env (files w) (repo_history_path env) = Inr rt
         \<and> local_text env w = Inr lt
         \<and> merge_entries (json_loads env) (stripped_lines rt) (stripped_lines lt) = Inr m
         \<and> rt \<noteq> new_content_of m)"
  by (simp add: sync_unfold split: sum.splits)

lemma sync_success:
  assumes "fst (sync_backup_history env w) = Inr n"
  shows "(\<not> path_exists w (repo_history_path env)
            \<and> files (snd (sync_backup_history env w)) = files w
            \<and> paths (snd (sync_backup_history env w)) = paths w)
   \<or> (\<exists>rt lt m. path_exists w (repo_history_path env)
         \<and> open_read env (files w) (repo_history_path env) = Inr rt
         \<and> local_text env w = Inr lt
         \<and> merge_entries (json_loads env) (stripped_lines rt) (stripped_lines lt) = Inr m
         \<and> paths (snd (sync_backup_history env w)) = paths w
         \<and> files (snd (sync_backup_history env w))
             = (if rt = new_content_of m then files w
                else put_file (local_history_path env) (new_content_of m)
                       (put_file (repo_history_path env) (new_content_of m) (files w))))"
proof (cases "path_exists w (repo_history_path env)")
  case False
  then show ?thesis by (simp add: sync_unfold)
next
  case ex: True
  from assms ex obtain rt lt m where
    rt: "open_read env (files w) (repo_history_path env) = Inr rt" and
    lt: "local_text env w = Inr lt" and
    m: "merge_entries (json_loads env) (stripped_lines rt) (stripped_lines lt) = Inr m"
    by (auto simp: sync_unfold split: sum.splits)
  show ?thesis
  proof (cases "rt = new_content_of m")
    case True
    with ex rt lt m show ?thesis by (simp add: sync_unfold)
  next
    case False
    with assms ex rt lt m obtain u where u: "fst (write_merged env m w) = Inr u"
      by (cases "write_merged env m w") (auto simp: sync_unfold split: sum.splits)
    have "snd (sync_backup_history env w) = snd (write_merged env m w)"
      using ex rt lt m False u
      by (cases "write_merged env m w") (auto simp: sync_unfold split: sum.splits)
    with ex rt lt m False write_merged_files [OF u] write_merged_paths [of env m w]
    show ?thesis by simp
  qed
qed

lemma map_of_put_file: "map_of (put_file p c fl) q = (if q = p then Some c else map_of fl q)"
  by (induction fl) (auto simp: put_file_def)

lemma open_read_InrD:
  "open_read env fl p = Inr t \<Longrightarrow> \<exists>c. map_of fl p = Some c \<and> t = universal_newlines c"
  by (auto simp: open_read_def split: option.splits)

lemma set_py_join: "set (py_join sep xs) \<subseteq> set sep \<union> \<Union> (set ` set xs)"
  by (induction sep xs rule: py_join.induct) auto

lemma local_text_no_cr: "local_text env w = Inr lt \<Longrightarrow> CHR 0x0D \<notin> set lt"
  by (auto simp: local_text_def universal_newlines_no_cr dest!: open_read_InrD split: if_splits)

text \<open>
  C3: when a merge has returned normally, a second merge run directly after it, with no
  change to either ledger in between, attempts no write and no git command: the files, the
  record of filesystem changes and the record of git commands are as the first merge left
  them. The second run may meet other failures than the first (its environment differs).
\<close>

theorem C3_merge_idempotent:
  assumes first: "fst (sync_backup_history env1 w) = Inr n"
    and same: "json_loads env2 = json_loads env1" "repo_path env2 = repo_path env1"
              "autostash_dir env2 = autostash_dir env1"
  shows "files (snd (sync_backup_history env2 (snd (sync_backup_history env1 w))))
           = files (snd (sync_backup_history env1 w))
       \<and> fs_log (snd (sync_backup_history env2 (snd (sync_backup_history env1 w))))
           = fs_log (snd (sync_backup_history env1 w))
       \<and> git_log (snd (sync_backup_history env2 (snd (sync_backup_history env1 w))))
           = git_log (snd (sync_backup_history env1 w))"
proof -
  let ?w1 = "snd (sync_backup_history env1 w)"
  let ?R = "repo_history_path env1" and ?L = "local_history_path env1"
  have R2: "repo_history_path env2 = ?R" and L2: "local_history_path env2 = ?L"
    using same by (simp_all add: repo_history_path_def local_history_path_def)
  have "\<not> (\<exists>rt lt m. path_exists ?w1 ?R
         \<and> open_read env2 (files ?w1) ?R = Inr rt
         \<and> local_text env2 ?w1 = Inr lt
         \<and> merge_entries (json_loads env1) (stripped_lines rt) (stripped_lines lt) = Inr m
         \<and> rt \<noteq> new_content_of m)"
  proof
    assume "\<exists>rt lt m. path_exists ?w1 ?R
         \<and> open_read env2 (files ?w1) ?R = Inr rt
         \<and> local_text env2 ?w1 = Inr lt
         \<and> merge_entries (json_loads env1) (stripped_lines rt) (stripped_lines lt) = Inr m
         \<and> rt \<noteq> new_content_of m"
    then obtain rt2 lt2 m2 where
      ex2: "path_exists ?w1 ?R" and r2: "open_read env2 (files ?w1) ?R = Inr rt2" and
      l2: "local_text env2 ?w1 = Inr lt2" and
      m2: "merge_entries (json_loads env1) (stripped_lines rt2) (stripped_lines lt2) = Inr m2" and
      neq: "rt2 \<noteq> new_content_of m2" by blast
    from sync_success [OF first] show False
    proof (elim disjE conjE exE)
      assume "\<not> path_exists w ?R" "files ?w1 = files w" "paths ?w1 = paths w"
      with ex2 show False by (simp add: path_exists_def)
    next
      fix rt lt m
      assume ex: "path_exists w ?R" and r: "open_read env1 (files w) ?R = Inr rt"
        and l: "local_text env1 w = Inr lt"
        and m: "merge_entries (json_loads env1) (stripped_lines rt) (stripped_lines lt) = Inr m"
        and p1: "paths ?w1 = paths w"
        and f1: "files ?w1 = (if rt = new_content_of m then files w
                else put_file ?L (new_content_of m) (put_file ?R (new_content_of m) (files w)))"
      show False
      proof (cases "rt = new_content_of m")
        case True
        with f1 have f: "files ?w1 = files w" by simp
        from r r2 f have "rt2 = rt" by (auto dest!: open_read_InrD)
        moreover have "lt2 = lt"
          using l l2 f p1 L2
          by (auto simp: local_text_def path_exists_def dest!: open_read_InrD split: if_splits)
        ultimately have "m2 = m" using m m2 by simp
        with \<open>rt2 = rt\<close> True neq show False by simp
      next
        case False
        let ?new = "new_content_of m"
        from f1 False have f: "files ?w1 = put_file ?L ?new (put_file ?R ?new (files w))" by simp
        have rt_cr: "CHR 0x0D \<notin> set rt"
          using r by (auto simp: universal_newlines_no_cr dest!: open_read_InrD)
        have lt_cr: "CHR 0x0D \<notin> set lt" using l by (rule local_text_no_cr)
        from merge_entries_idem [OF m] have
          idem: "merge_entries (json_loads env1) m m = Inr m" and
          sub: "set m \<subseteq> set (stripped_lines rt) \<union> set (stripped_lines lt)" by auto
        have clean: "\<forall>x\<in>set m. clean_entry x"
          using sub stripped_lines_clean rt_cr lt_cr by blast
        have "CHR 0x0D \<notin> set ?new"
          using clean set_py_join [of "[CHR 0x0A]" m] by (auto simp: new_content_of_def clean_entry_def)
        then have un: "universal_newlines ?new = ?new" by (rule universal_newlines_id)
        have "rt2 = ?new"
          using r2 f un by (auto simp: map_of_put_file dest!: open_read_InrD split: if_splits)
        moreover have "lt2 = ?new"
          using l2 f un L2
          by (auto simp: local_text_def path_exists_def map_of_put_file dest!: open_read_InrD split: if_splits)
        moreover have "stripped_lines ?new = m"
          unfolding new_content_of_def using clean by (rule stripped_lines_join)
        ultimately have "m2 = m" using m2 idem by simp
        with \<open>rt2 = ?new\<close> neq show False by simp
      qed
    qed
  qed
  with sync_frame [of env2 ?w1, unfolded R2 L2 same(1)] show ?thesis by blast
qed

theorem C3_merge_idempotent_witness:
  "fst (sync_backup_history env_ledger world_ledger) = Inr 3
   \<and> git_log (snd (sync_backup_history env_ledger world_ledger))
       = [Add ''/home/u/.autostash_repo/backup_history'', Commit ''Sync backup history'', Push]
   \<and> files (snd (sync_backup_history env_ledger (snd (sync_backup_history env_ledger world_ledger))))
       = files (snd (sync_backup_history env_ledger world_ledger))
   \<and> fs_log (snd (sync_backup_history env_ledger (snd (sync_backup_history env_ledger world_ledger))))
       = fs_log (snd (sync_backup_history env_ledger world_ledger))
   \<and> git_log (snd (sync_backup_history env_ledger (snd (sync_backup_history env_ledger world_ledger))))
       = [Add ''/home/u/.autostash_repo/backup_history'', Commit ''Sync backup history'', Push]"
proof -
  have h: "fst (sync_backup_history env_ledger world_ledger) = Inr 3"
    by code_simp
  have g: "git_log (snd (sync_backup_history env_ledger world_ledger))
       = [Add ''/home/u/.autostash_repo/backup_history'', Commit ''Sync backup history'', Push]"
    by code_simp
  from C3_merge_idempotent [OF h, of env_ledger] h g show ?thesis by simp
qed

lemma py_eq_key:
  "key_of a \<noteq> None \<Longrightarrow> key_of b \<noteq> None \<Longrightarrow> py_eq a b \<longleftrightarrow> key_of a = key_of b"
  by (cases a; cases b) (auto simp: py_eq_def key_of_def)




lemma entry_ok_ts:
  "entry_ok loads e \<Longrightarrow> entry_ts loads e = Some t \<Longrightarrow> key_of t \<noteq> None"
  by (auto simp: entry_ok_def entry_ts_def split: sum.splits json.splits option.splits if_splits)













text \<open>
  Two lines have the same key exactly when the membership test of the second loop takes
  their timestamps for equal.
\<close>

lemma same_key_iff:
  assumes "entry_ok loads a" "entry_ok loads b"
    and "entry_ts loads a = Some t" "entry_ts loads b = Some u"
  shows "ts_key loads a = ts_key loads b \<longleftrightarrow> py_eq t u"
  using assms entry_ok_ts [OF assms(1,3)] entry_ok_ts [OF assms(2,4)]
  by (simp add: ts_key_def py_eq_key)




subsection \<open>System-file collector\<close>



lemma fs_log_fs_effect [simp]: "fs_log (fs_effect c w) = fs_log w"
  by (cases c) (auto split: option.splits)

lemma logged_fs_effect [simp]: "logged (fs_effect c w) = logged w"
  by (cases c) (auto split: option.splits)









text \<open>One turn of the loop, for a file of the list.\<close>

lemma backup_system_file_absent:
  "\<not> path_exists v f \<Longrightarrow> backup_system_file env sbp f v = (Inr (), v)"
  by (simp add: backup_system_file_def)












subsection \<open>Retention\<close>

lemma parent_history_shorter:
  "parent_history revision h = Some h' \<Longrightarrow> h' \<noteq> [] \<and> length h' < length h"
  by (induction h) (auto split: if_splits)

lemma git_history:
  "history w \<noteq> [] \<Longrightarrow> c = ResetHard revision \<or> c = PushForce \<Longrightarrow>
     history (snd (git env c w)) \<noteq> []
     \<and> length (history (snd (git env c w))) \<le> length (history w)
     \<and> (c = ResetHard revision \<and> fst (git env c w) = Inr () \<longrightarrow>
           length (history (snd (git env c w))) < length (history w))"
  using parent_history_shorter [of revision "history w"]
  by (auto simp: git_unfold less_imp_le split: option.splits)

lemma cleanup_commits_bound:
  "history w \<noteq> [] \<Longrightarrow>
     (\<exists>r. fst (cleanup_commits env cutoff commits result w) = Inr r
        \<and> removed r + length (history (snd (cleanup_commits env cutoff commits result w)))
             \<le> removed result + length (history w))
     \<and> history (snd (cleanup_commits env cutoff commits result w)) \<noteq> []"
proof (induction commits arbitrary: result w)
  case Nil
  then show ?case by (simp add: ret_def)
next
  case (Cons c commits)
  show ?case
  proof (cases "local_time env (committed_date c) < cutoff")
    case False
    with Cons show ?thesis by simp
  next
    case True
    let ?body = "try_except
               (seq (get_repo_size env) (\<lambda>size_before.
                seq (git env (ResetHard (hexsha c @ ''^''))) (\<lambda>_.
                seq (git env PushForce) (\<lambda>_.
                seq (get_repo_size env) (\<lambda>size_after.
                seq (logger INFO (''Removed backup from '' @ show_date env (committed_date c))) (\<lambda>_.
                ret (result\<lparr>space_freed := space_freed result + (size_before - size_after),
                            removed := removed result + 1\<rparr>)))))))
               (\<lambda>e. seq (logger ERROR (''Failed to remove backup from '' @ show_date env (committed_date c)
                                         @ '': '' @ str_of e)) (\<lambda>_. ret result))"
    let ?w1 = "snd (git env (ResetHard (hexsha c @ ''^'')) w)"
    have g1: "history ?w1 \<noteq> []" "length (history ?w1) \<le> length (history w)"
         "fst (git env (ResetHard (hexsha c @ ''^'')) w) = Inr () \<longrightarrow> length (history ?w1) < length (history w)"
      using git_history [OF Cons.prems, of "ResetHard (hexsha c @ ''^'')" "hexsha c @ ''^''" env] by auto
    have g2: "history (snd (git env PushForce ?w1)) = history ?w1"
      by (simp add: git_unfold split: option.splits)
    have body: "\<exists>r1. fst (?body w) = Inr r1
        \<and> removed r1 + length (history (snd (?body w))) \<le> removed result + length (history w)
        \<and> history (snd (?body w)) \<noteq> []"
      using g1 g2
      by (cases "git env (ResetHard (hexsha c @ ''^'')) w"; cases "git env PushForce ?w1")
         (auto simp: try_except_def seq_def get_repo_size_def logger_def ret_def
               split: sum.splits prod.splits)
    then obtain r1 where r1: "fst (?body w) = Inr r1"
        "removed r1 + length (history (snd (?body w))) \<le> removed result + length (history w)"
        "history (snd (?body w)) \<noteq> []" by blast
    have step: "cleanup_commits env cutoff (c # commits) result w
                  = cleanup_commits env cutoff commits r1 (snd (?body w))"
      using True r1(1) by (cases "?body w") (simp add: seq_def)
    from Cons.IH [OF r1(3), of r1] r1(2) step show ?thesis by auto
  qed
qed

text \<open>
  Whatever the outside answers, the root commit of a branch is never removed: a call that
  gets as far as the loop returns, and reports fewer removals than there were commits.
\<close>

lemma cleanup_never_removes_root:
  assumes "history w \<noteq> []"
  shows "history (snd (cleanup_old_backups env retention_days w)) \<noteq> []
     \<and> (case retention_cutoff env retention_days of
          Inl e \<Rightarrow> fst (cleanup_old_backups env retention_days w) = Inl e
        | Inr cutoff \<Rightarrow>
            (\<exists>r. fst (cleanup_old_backups env retention_days w) = Inr r \<and> removed r < length (history w)))"
proof (cases "retention_cutoff env retention_days")
  case (Inl e)
  then show ?thesis using assms
    by (simp add: cleanup_old_backups_def try_except_def seq_def logger_def lift_def raise_def)
next
  case (Inr cutoff)
  let ?w0 = "w\<lparr>logged := logged w @ [(INFO, ''Starting cleanup of backups older than '' @ str_int retention_days @ '' days'')]\<rparr>"
  let ?loop = "cleanup_commits env cutoff (history w) \<lparr>removed = 0, space_freed = 0\<rparr> ?w0"
  have h0: "history ?w0 \<noteq> []" using assms by simp
  from cleanup_commits_bound [OF h0, of env cutoff "history w" "\<lparr>removed = 0, space_freed = 0\<rparr>"]
  obtain r where r: "fst ?loop = Inr r" "removed r + length (history (snd ?loop)) \<le> length (history w)"
      "history (snd ?loop) \<noteq> []" by auto
  have "cleanup_old_backups env retention_days w
          = (Inr r, (snd ?loop)\<lparr>logged := logged (snd ?loop) @ [(INFO, ''Cleanup completed: '' @ decimal (removed r) @ '' backups removed, ''
                                @ str_int (space_freed r) @ '' bytes freed'')]\<rparr>)"
    using r(1) Inr assms
    by (cases ?loop)
       (simp add: cleanup_old_backups_def try_except_def seq_def logger_def ret_def lift_def
          iter_commits_def)
  moreover have "removed r < length (history w)"
    using r(2,3) by (cases "history (snd ?loop)") auto
  ultimately show ?thesis using r(3) Inr by simp
qed

text \<open>
  C7: on a branch of exactly three commits, all older than the present moment, retention
  with zero days does not report three removals. It resets past the two newest commits
  and then fails on the root commit, which has no parent to reset to; the failure is
  logged and not counted. The result is \<open>removed = 2\<close>, the root commit stays, and the
  local ledger and the last-run marker keep their contents.
\<close>

theorem C7_three_commits_removes_two:
  "fst (cleanup_old_backups env_always_ok 0 world_three_commits)
     = Inr \<lparr>removed = 2, space_freed = 400\<rparr>
   \<and> history (snd (cleanup_old_backups env_always_ok 0 world_three_commits))
     = [\<lparr> hexsha = ''a1a1a1'', committed_date = 1704103200 \<rparr>]
   \<and> git_log (snd (cleanup_old_backups env_always_ok 0 world_three_commits))
     = [ResetHard ''c3c3c3^'', PushForce, ResetHard ''b2b2b2^'', PushForce, ResetHard ''a1a1a1^'']
   \<and> map_of (files (snd (cleanup_old_backups env_always_ok 0 world_three_commits)))
        ''/home/u/.autostash/backup_history'' = Some ''{}''
   \<and> map_of (files (snd (cleanup_old_backups env_always_ok 0 world_three_commits)))
        ''/home/u/.autostash/last_backup'' = Some ''2024-01-03 10:00:00''"
  by code_simp

subsection \<open>Packager\<close>

lemma process_folders_dfiles:
  "dfiles (snd (process_folders env compress encrypt names temp_root)) = dfiles temp_root"
proof (induction names arbitrary: temp_root)
  case Nil
  then show ?case by simp
next
  case (Cons n names)
  show ?case
  proof (cases "map_of (subdirs temp_root) n")
    case None
    with Cons show ?thesis by simp
  next
    case (Some t)
    show ?thesis
    proof (cases "n = ''.git''")
      case True
      with Some Cons show ?thesis by simp
    next
      case False
      obtain r t' where p: "process_folder env compress encrypt [n] t = (r, t')"
        by (cases "process_folder env compress encrypt [n] t")
      show ?thesis
      proof (cases r)
        case None
        with Some False p Cons.IH [of "Dir (dfiles temp_root) (put_dir n t' (subdirs temp_root))"]
        show ?thesis by simp
      next
        case (Some e)
        with \<open>map_of (subdirs temp_root) n = Some t\<close> False p show ?thesis by simp
      qed
    qed
  qed
qed

lemma map_of_del_name: "map_of (del_name n xs) m = (if m = n then None else map_of xs m)"
  by (induction xs) (auto simp: del_name_def)

lemma copy_manifest_ok:
  assumes "map_of (dfiles temp_root) ''metadata.json'' = Some c" and "pk_copy2 env = None"
  shows "fst (copy_manifest env temp_root) = None
     \<and> map_of (dfiles (snd (copy_manifest env temp_root))) ''metadata.json'' = Some c
     \<and> (case map_of (dfiles (snd (copy_manifest env temp_root))) ''metadata.json.tmp'' of
           Some c' \<Rightarrow> c' = c
         | None \<Rightarrow> map_of (subdirs temp_root) ''metadata.json.tmp'' \<noteq> None)"
  using assms
  by (auto simp: copy_manifest_def map_of_put_file split: option.splits)

lemma move_manifest_keeps:
  assumes "map_of (dfiles temp_root) ''metadata.json'' = Some c"
    and "case map_of (dfiles temp_root) ''metadata.json.tmp'' of Some c' \<Rightarrow> c' = c | None \<Rightarrow> True"
  shows "map_of (dfiles (snd (move_manifest env h temp_root))) ''metadata.json'' = Some c"
  using assms
  by (auto simp: move_manifest_def map_of_put_file map_of_del_name split: option.splits)

lemma move_manifest_restores:
  assumes "map_of (dfiles temp_root) ''metadata.json'' = Some c"
    and "map_of (dfiles temp_root) ''metadata.json.tmp'' = Some c"
    and "pk_move env h = None"
  shows "fst (move_manifest env h temp_root) = None
     \<and> map_of (dfiles (snd (move_manifest env h temp_root))) ''metadata.json.tmp'' = None"
  using assms
  by (auto simp: move_manifest_def exists_in_def map_of_put_file map_of_del_name split: option.splits)

text \<open>
  C2: when the staging directory holds a manifest file and the temporary copy of it could
  be made, the manifest is there with the same content after packaging, whether packaging
  returned or raised, and wherever compression, removal or encryption failed. When
  packaging raised, no directory stood in the place of the temporary copy and the move in
  the \<^verbatim>\<open>except\<close> branch succeeded, the temporary copy has been moved back: it is gone.
\<close>

theorem C2_manifest_survives_packaging:
  assumes manifest: "map_of (dfiles (staged s)) ''metadata.json'' = Some c"
    and copied: "pk_copy2 env = None"
  shows "map_of (dfiles (staged (snd (process_backup_files env compress encrypt s)))) ''metadata.json'' = Some c
     \<and> (map_of (subdirs (staged s)) ''metadata.json.tmp'' = None \<and> pk_move env True = None
          \<and> fst (process_backup_files env compress encrypt s) \<noteq> None \<longrightarrow>
            map_of (dfiles (staged (snd (process_backup_files env compress encrypt s)))) ''metadata.json.tmp'' = None)"
proof -
  let ?root = "staged s"
  have bound: "exists_in ?root ''metadata.json''" using manifest by (simp add: exists_in_def)
  obtain r1 where copy_eq: "copy_manifest env ?root = (None, r1)"
    using copy_manifest_ok [OF manifest copied] by (cases "copy_manifest env ?root") auto
  with copy_manifest_ok [OF manifest copied] have
    c1: "map_of (dfiles r1) ''metadata.json'' = Some c" and
    c2: "case map_of (dfiles r1) ''metadata.json.tmp'' of Some c' \<Rightarrow> c' = c
         | None \<Rightarrow> map_of (subdirs ?root) ''metadata.json.tmp'' \<noteq> None"
    by auto
  obtain lr r2 where loop_eq:
    "process_folders env compress encrypt (map fst (dfiles r1) @ map fst (subdirs r1)) r1 = (lr, r2)"
    by (cases "process_folders env compress encrypt (map fst (dfiles r1) @ map fst (subdirs r1)) r1")
  have d2: "dfiles r2 = dfiles r1"
    using process_folders_dfiles [of env compress encrypt "map fst (dfiles r1) @ map fst (subdirs r1)" r1]
      loop_eq by simp
  have m2: "map_of (dfiles r2) ''metadata.json'' = Some c" using c1 d2 by simp
  have t2: "case map_of (dfiles r2) ''metadata.json.tmp'' of Some c' \<Rightarrow> c' = c | None \<Rightarrow> True"
    using c2 d2 by (auto split: option.splits)
  have t2': "map_of (subdirs ?root) ''metadata.json.tmp'' = None \<Longrightarrow>
               map_of (dfiles r2) ''metadata.json.tmp'' = Some c"
    using c2 d2 by (auto split: option.splits)
  obtain hr r4 where mh_eq: "move_manifest env True r2 = (hr, r4)"
    by (cases "move_manifest env True r2")
  have mh_m: "map_of (dfiles r4) ''metadata.json'' = Some c"
    using move_manifest_keeps [OF m2 t2, of env True] mh_eq by simp
  have mh_t: "map_of (subdirs ?root) ''metadata.json.tmp'' = None \<and> pk_move env True = None \<longrightarrow>
                map_of (dfiles r4) ''metadata.json.tmp'' = None"
    using move_manifest_restores [OF m2, of env True] t2' mh_eq by auto
  show ?thesis
  proof (cases lr)
    case None
    obtain mr r3 where mv_eq: "move_manifest env False r2 = (mr, r3)"
      by (cases "move_manifest env False r2")
    have mv_m: "map_of (dfiles r3) ''metadata.json'' = Some c"
      using move_manifest_keeps [OF m2 t2, of env False] mv_eq by simp
    show ?thesis
    proof (cases mr)
      case n: None
      have "process_backup_files env compress encrypt s
              = (None, s\<lparr>staged := r3,
                         pk_logged := pk_logged s @ [(INFO, ''Backup processing completed successfully'')]\<rparr>)"
        using bound copy_eq loop_eq mv_eq None n by (simp add: process_backup_files_def Let_def)
      with mv_m show ?thesis by simp
    next
      case (Some e)
      have same: "r3 = r2"
        using Some mv_eq by (auto simp: move_manifest_def split: option.splits if_splits)
      have run: "staged (snd (process_backup_files env compress encrypt s)) = r4"
        using bound copy_eq loop_eq mv_eq mh_eq None Some same
        by (cases hr) (simp_all add: process_backup_files_def Let_def)
      with mh_m mh_t show ?thesis by simp
    qed
  next
    case (Some e)
    have run: "staged (snd (process_backup_files env compress encrypt s)) = r4"
      using bound copy_eq loop_eq mh_eq Some
      by (cases hr) (simp_all add: process_backup_files_def Let_def)
    with mh_m mh_t show ?thesis by simp
  qed
qed

theorem C2_manifest_survives_packaging_witness:
  \<open>map_of (dfiles (staged staging_sample)) ''metadata.json'' = Some ''{"timestamp": "20240101_1200"}''
   \<and> pk_copy2 penv_second_file_fails = None
   \<and> fst (process_backup_files penv_second_file_fails False True staging_sample)
       = Some (Err PlainException ''Failed to process backup files: gpg: encryption failed'')
   \<and> staged (snd (process_backup_files penv_second_file_fails False True staging_sample))
       = Dir [(''metadata.json'', ''{"timestamp": "20240101_1200"}'')]
             [(''docs'', Dir [(''a.txt.gpg'', ''GPG(alpha)''), (''b.txt'', ''beta'')] [])]\<close>
proof -
  have h1: \<open>map_of (dfiles (staged staging_sample)) ''metadata.json'' = Some ''{"timestamp": "20240101_1200"}''\<close>
    by code_simp
  have h2: "pk_copy2 penv_second_file_fails = None"
    by code_simp
  have r: "fst (process_backup_files penv_second_file_fails False True staging_sample)
       = Some (Err PlainException ''Failed to process backup files: gpg: encryption failed'')"
    by code_simp
  have t: \<open>staged (snd (process_backup_files penv_second_file_fails False True staging_sample))
       = Dir [(''metadata.json'', ''{"timestamp": "20240101_1200"}'')]
             [(''docs'', Dir [(''a.txt.gpg'', ''GPG(alpha)''), (''b.txt'', ''beta'')] [])]\<close>
    by code_simp
  from C2_manifest_survives_packaging [OF h1 h2, of False True] h1 h2 r t show ?thesis by simp
qed

subsection \<open>The end of a run\<close>

lemma update_history_returns: "fst (update_history env metadata w) = Inr ()"
  by (cases "seq (record_backup_time env) (\<lambda>_. append_backup_history env metadata) w")
     (auto simp: update_history_def try_except_def logger_def split: sum.splits)

lemma update_history_logs:
  assumes "fst (seq (record_backup_time env) (\<lambda>_. append_backup_history env metadata) w) = Inl e"
  shows "logged (snd (update_history env metadata w))
           = logged (snd (seq (record_backup_time env) (\<lambda>_. append_backup_history env metadata) w))
             @ [(ERROR, ''Failed to update backup history: '' @ str_of e)]"
  using assms
  by (cases "seq (record_backup_time env) (\<lambda>_. append_backup_history env metadata) w")
     (auto simp: update_history_def try_except_def logger_def)

text \<open>
  C10: when \<open>_git_commit_push\<close> has returned and the progress callback (if there is one)
  returns, the run returns the result with status \<open>success\<close>, whatever happens while the
  last-run marker is written and the ledger is appended. If one of the two raises, the
  error is logged and nothing else is done about it.
\<close>

theorem C10_history_failure_is_only_logged:
  assumes pushed: "fst (git_commit_push env w) = Inr ()"
    and called: "\<forall>v. fst (report_progress progress_callback (Percent 100) ''Backup complete'' v) = Inr ()"
  shows "fst (run_from_commit env progress_callback backup_folder_path metadata file_count total_size w)
           = Inr \<lparr> rr_status = ''success'', rr_backup_name = md_backup_name metadata,
                   rr_timestamp = md_timestamp metadata, rr_folders = md_folders metadata,
                   rr_total_files = file_count, rr_total_size = format_size env total_size \<rparr>
     \<and> (\<forall>e. fst (seq (record_backup_time env) (\<lambda>_. append_backup_history env metadata)
                   (snd (git_commit_push env w))) = Inl e \<longrightarrow>
           fst (update_history env metadata (snd (git_commit_push env w))) = Inr ()
           \<and> logged (snd (update_history env metadata (snd (git_commit_push env w))))
               = logged (snd (seq (record_backup_time env) (\<lambda>_. append_backup_history env metadata)
                                (snd (git_commit_push env w))))
                 @ [(ERROR, ''Failed to update backup history: '' @ str_of e)])"
proof -
  obtain w1 where g: "git_commit_push env w = (Inr (), w1)"
    using pushed by (cases "git_commit_push env w") simp
  obtain w2 where u: "update_history env metadata w1 = (Inr (), w2)"
    using update_history_returns [of env metadata w1]
    by (cases "update_history env metadata w1") simp
  have "fst (report_progress progress_callback (Percent 100) ''Backup complete'' w2) = Inr ()"
    using called by blast
  then obtain w3 where c: "report_progress progress_callback (Percent 100) ''Backup complete'' w2 = (Inr (), w3)"
    by (cases "report_progress progress_callback (Percent 100) ''Backup complete'' w2") simp
  have 1: "fst (run_from_commit env progress_callback backup_folder_path metadata file_count total_size w)
           = Inr \<lparr> rr_status = ''success'', rr_backup_name = md_backup_name metadata,
                   rr_timestamp = md_timestamp metadata, rr_folders = md_folders metadata,
                   rr_total_files = file_count, rr_total_size = format_size env total_size \<rparr>"
    by (simp add: run_from_commit_def try_except_def seq_def g u c ret_def)
  from 1 update_history_returns update_history_logs show ?thesis by blast
qed

theorem C10_history_failure_is_only_logged_witness:
  "fst (git_commit_push env_no_autostash_dir world_staged) = Inr ()
   \<and> fst (seq (record_backup_time env_no_autostash_dir)
             (\<lambda>_. append_backup_history env_no_autostash_dir metadata_docs)
             (snd (git_commit_push env_no_autostash_dir world_staged)))
       = Inl (Err OtherError ''[Errno 2] No such file or directory: /home/u/.autostash/last_backup'')
   \<and> fst (run_from_commit env_no_autostash_dir (Some recording_callback)
             ''/home/u/.autostash_repo/Backup_20240601_1000_docs'' metadata_docs 1 5 world_staged)
       = Inr \<lparr> rr_status = ''success'', rr_backup_name = ''Backup_20240601_1000_docs'',
               rr_timestamp = ''20240601_1000'', rr_folders = [(''docs'', ''/home/u/docs'')],
               rr_total_files = 1, rr_total_size = ''5.0 B'' \<rparr>
   \<and> logged (snd (run_from_commit env_no_autostash_dir (Some recording_callback)
             ''/home/u/.autostash_repo/Backup_20240601_1000_docs'' metadata_docs 1 5 world_staged))
       = [(ERROR, ''Failed to update backup history: [Errno 2] No such file or directory: /home/u/.autostash/last_backup'')]
   \<and> git_log (snd (run_from_commit env_no_autostash_dir (Some recording_callback)
             ''/home/u/.autostash_repo/Backup_20240601_1000_docs'' metadata_docs 1 5 world_staged))
       = [AddAll, Commit ''AutoStash Backup'', RemotePush]
   \<and> files (snd (run_from_commit env_no_autostash_dir (Some recording_callback)
             ''/home/u/.autostash_repo/Backup_20240601_1000_docs'' metadata_docs 1 5 world_staged))
       = files world_staged
   \<and> map_of (files world_staged) ''/home/u/.autostash_repo/backup_history'' = Some ''''
   \<and> map_of (files world_staged) ''/home/u/.autostash/backup_history'' = None"
proof -
  have h: "fst (git_commit_push env_no_autostash_dir world_staged) = Inr ()"
    by code_simp
  have c: "\<forall>v. fst (report_progress (Some recording_callback) (Percent 100) ''Backup complete'' v) = Inr ()"
    by (simp add: report_progress_def recording_callback_def)
  have e: "fst (seq (record_backup_time env_no_autostash_dir)
             (\<lambda>_. append_backup_history env_no_autostash_dir metadata_docs)
             (snd (git_commit_push env_no_autostash_dir world_staged)))
       = Inl (Err OtherError ''[Errno 2] No such file or directory: /home/u/.autostash/last_backup'')"
    by code_simp
  have l: "logged (snd (run_from_commit env_no_autostash_dir (Some recording_callback)
             ''/home/u/.autostash_repo/Backup_20240601_1000_docs'' metadata_docs 1 5 world_staged))
       = [(ERROR, ''Failed to update backup history: [Errno 2] No such file or directory: /home/u/.autostash/last_backup'')]"
    by code_simp
  have g: "git_log (snd (run_from_commit env_no_autostash_dir (Some recording_callback)
             ''/home/u/.autostash_repo/Backup_20240601_1000_docs'' metadata_docs 1 5 world_staged))
       = [AddAll, Commit ''AutoStash Backup'', RemotePush]"
    by code_simp
  have f: "files (snd (run_from_commit env_no_autostash_dir (Some recording_callback)
             ''/home/u/.autostash_repo/Backup_20240601_1000_docs'' metadata_docs 1 5 world_staged))
       = files world_staged"
    by code_simp
  have m: "map_of (files world_staged) ''/home/u/.autostash_repo/backup_history'' = Some ''''"
    "map_of (files world_staged) ''/home/u/.autostash/backup_history'' = None"
    by code_simp+
  have fs: "format_size env_no_autostash_dir 5 = ''5.0 B''" by code_simp
  note inst = C10_history_failure_is_only_logged [OF h c,
      of "''/home/u/.autostash_repo/Backup_20240601_1000_docs''" metadata_docs 1 5]
  from inst have r: "fst (run_from_commit env_no_autostash_dir (Some recording_callback)
             ''/home/u/.autostash_repo/Backup_20240601_1000_docs'' metadata_docs 1 5 world_staged)
       = Inr \<lparr> rr_status = ''success'', rr_backup_name = ''Backup_20240601_1000_docs'',
               rr_timestamp = ''20240601_1000'', rr_folders = [(''docs'', ''/home/u/docs'')],
               rr_total_files = 1, rr_total_size = ''5.0 B'' \<rparr>"
    by (simp add: fs metadata_docs_def)
  from h e r l g f m show ?thesis by blast
qed

end
